theory Spec2Isabelle
  imports Complex_Main "HOL-Library.Word"
begin

unbundle bit_operations_syntax

text \<open>
  A model of the serialization core of \<^verbatim>\<open>kra-go\<close>, a Go library that writes a
  drawing document as a Krita file: the style block encoder of \<^verbatim>\<open>pkg/asl/asl.go\<close>,
  the tile codec and the packager of \<^verbatim>\<open>pkg/document/document.go\<close>, and the XML tree
  printer and the layer types of \<^verbatim>\<open>pkg/layers/layers.go\<close>. The definitions follow the
  source function by function and keep its names; the theorems after them state what
  the code does about ten properties of its specification.
\<close>

section \<open>Bytes, strings and big-endian integers\<close>

text \<open>
  A Go \<^verbatim>\<open>byte\<close> is an 8-bit word. A Go \<^verbatim>\<open>string\<close> is a sequence of bytes; it is
  modelled as \<^typ>\<open>string\<close> (a list of 8-bit characters), and the conversion
  \<^verbatim>\<open>[]byte(s)\<close> is \<open>bytes_of\<close>. A \<^verbatim>\<open>float64\<close> that is only stored and written
  out is carried as its IEEE-754 bit pattern, a 64-bit word.
\<close>

type_synonym byte = "8 word"
type_synonym float64 = "64 word"

definition bytes_of :: "string \<Rightarrow> byte list" where
  "bytes_of s = map of_char s"

text \<open>
  \<^verbatim>\<open>binary.Write(&buf, binary.BigEndian, v)\<close> appends the big-endian bytes of a
  fixed-size value to a \<^verbatim>\<open>bytes.Buffer\<close>. Writing to a \<^verbatim>\<open>bytes.Buffer\<close> cannot
  fail, so the error branches after these calls are unreachable and the model returns
  the extended buffer.
\<close>

definition be_u16 :: "16 word \<Rightarrow> byte list" where
  "be_u16 v = [ucast (drop_bit 8 v), ucast v]"

definition be_u32 :: "32 word \<Rightarrow> byte list" where
  "be_u32 v = [ucast (drop_bit 24 v), ucast (drop_bit 16 v), ucast (drop_bit 8 v), ucast v]"

definition be_u64 :: "64 word \<Rightarrow> byte list" where
  "be_u64 v = [ucast (drop_bit 56 v), ucast (drop_bit 48 v), ucast (drop_bit 40 v),
               ucast (drop_bit 32 v), ucast (drop_bit 24 v), ucast (drop_bit 16 v),
               ucast (drop_bit 8 v), ucast v]"

text \<open>\<^verbatim>\<open>binary.BigEndian.Uint32(b)\<close>: the reader's side of a u32 field.\<close>

definition Uint32 :: "byte list \<Rightarrow> 32 word" where
  "Uint32 b = push_bit 24 (ucast (b ! 0)) OR push_bit 16 (ucast (b ! 1))
              OR push_bit 8 (ucast (b ! 2)) OR ucast (b ! 3)"

text \<open>
  \<^verbatim>\<open>binary.BigEndian.PutUint32(buf[pos:pos+4], v)\<close>: overwrite four bytes in place.
  The slice expression panics when \<open>pos + 4\<close> exceeds the buffer; the model returns
  \<open>None\<close> there.
\<close>

definition PutUint32 :: "byte list \<Rightarrow> nat \<Rightarrow> 32 word \<Rightarrow> byte list option" where
  "PutUint32 buf pos v =
     (if pos + 4 \<le> length buf
      then Some (buf[pos := be_u32 v ! 0, pos + 1 := be_u32 v ! 1,
                     pos + 2 := be_u32 v ! 2, pos + 3 := be_u32 v ! 3])
      else None)"

section \<open>The layer model (pkg/layers)\<close>

text \<open>
  The fields \<^verbatim>\<open>Content\<close> and \<^verbatim>\<open>Style\<close> of a \<^verbatim>\<open>ShapeLayer\<close> are opaque
  \<^verbatim>\<open>interface{}\<close> values that none of the functions modelled below inspects; they are
  left out of the record. A text layer is a \<^verbatim>\<open>ShapeLayer\<close> whose \<open>ContentType\<close> is
  \<open>''text''\<close> (see \<^verbatim>\<open>FromText\<close>). Pointers that may be \<^verbatim>\<open>nil\<close> are options.
\<close>

record LayerStyle =
  Enabled :: bool
  Scale :: float64
  LayerStyleUUID_style :: string
  StrokeEnabled :: bool
  StrokeStyle :: string
  StrokeBlendMode :: string
  StrokeOpacity :: float64
  StrokeSize :: float64
  StrokeColor :: "float64 \<times> float64 \<times> float64"


record ShapeLayer =
  ContentType :: string
  Name :: string
  Visible :: bool
  Opacity :: int
  X :: float64
  Y :: float64
  LayerStyle :: "LayerStyle option"
  UUID :: string
  LayerStyleUUID :: string

section \<open>The style block encoder (pkg/asl)\<close>

text \<open>
  \<open>encode_embedded\<close> is the loop of \<^verbatim>\<open>writeASLString\<close> that appends each byte of the
  string followed by a zero byte; \<open>encode_string\<close> is the whole \<^verbatim>\<open>if/else\<close> that
  fills \<^verbatim>\<open>encoded\<close>.
\<close>

fun encode_embedded :: "string \<Rightarrow> byte list" where
  "encode_embedded [] = []"
| "encode_embedded (c # cs) = of_char c # 0 # encode_embedded cs"

definition encode_string :: "string \<Rightarrow> string \<Rightarrow> byte list" where
  "encode_string s stringType =
     (if stringType = ''embedded'' then encode_embedded s @ [0, 0] else bytes_of s)"

text \<open>
  \<^verbatim>\<open>writeASLString(buf, s, stringType)\<close>. The length prefix is
  \<^verbatim>\<open>uint32(len(encoded))\<close>: the conversion keeps the low 32 bits.
\<close>

definition writeASLString :: "byte list \<Rightarrow> string \<Rightarrow> string \<Rightarrow> byte list" where
  "writeASLString buf s stringType =
     (let encoded = encode_string s stringType;
          buf1 = (if stringType \<noteq> ''key''
                  then buf @ be_u32 (word_of_nat (length encoded)) else buf);
          buf2 = buf1 @ encoded;
          padding = (4 - (length encoded mod 4)) mod 4
      in if padding > 0 then buf2 @ replicate padding 0 else buf2)"

text \<open>\<^verbatim>\<open>strings.ReplaceAll(s, "-", "")\<close>.\<close>

definition strip_hyphens :: "string \<Rightarrow> string" where
  "strip_hyphens s = filter (\<lambda>c. c \<noteq> CHR ''-'') s"

text \<open>
  The body of one iteration of the second loop of \<^verbatim>\<open>CreateLayerStylesASL\<close>, from the
  write of the tag \<^verbatim>\<open>"null"\<close> to the end of the stroke block: everything that is
  appended to the buffer after the reserved length field.
\<close>

definition write_stroke :: "byte list \<Rightarrow> LayerStyle \<Rightarrow> byte list" where
  "write_stroke asl ls =
     (let asl = asl @ bytes_of ''FrFX'' @ bytes_of ''Objc'' @ bytes_of ''FrFX''
                    @ bytes_of ''enab'' @ bytes_of ''bool'' @ [1]
                    @ bytes_of ''Style'' @ bytes_of ''enum'' @ bytes_of ''FStl'' @ bytes_of ''OutF''
                    @ bytes_of ''PntT'' @ bytes_of ''enum'' @ bytes_of ''FrFl'' @ bytes_of ''SClr''
                    @ bytes_of ''Md  '' @ bytes_of ''enum'' @ bytes_of ''BlnM'' @ bytes_of ''Nrml''
                    @ bytes_of ''Opct'' @ bytes_of ''UntF#Prc'';
          asl = asl @ be_u64 (StrokeOpacity ls);
          asl = asl @ bytes_of ''Sz  '' @ bytes_of ''UntF#Pxl'';
          asl = asl @ be_u64 (StrokeSize ls);
          asl = asl @ bytes_of ''Clr '' @ bytes_of ''Objc'' @ bytes_of ''RGBC'';
          channels = [''Rd  '', ''Grn '', ''Bl  ''];
          colors = (case StrokeColor ls of (r, g, b) \<Rightarrow> [r, g, b])
      in foldl (\<lambda>asl (ch, c). asl @ bytes_of ch @ bytes_of ''doub'' @ be_u64 c)
               asl (zip channels colors))"

definition write_style_body :: "byte list \<Rightarrow> ShapeLayer \<Rightarrow> LayerStyle \<Rightarrow> byte list" where
  "write_style_body asl sl ls =
     (let asl = asl @ bytes_of ''null'' @ bytes_of ''Nm  '' @ bytes_of ''TEXT'';
          name = ''<'' @ Name sl @ ''> (embedded)'';
          asl = writeASLString asl name ''embedded'';
          asl = asl @ bytes_of ''Idnt'' @ bytes_of ''TEXT'';
          uuidStr = strip_hyphens (LayerStyleUUID sl);
          uuidStr = ''%'' @ uuidStr;
          asl = writeASLString asl uuidStr ''embedded'';
          asl = asl @ bytes_of ''StyL'' @ bytes_of ''documentMode'' @ bytes_of ''Objc''
                    @ bytes_of ''documentMode'' @ bytes_of ''Lefx'' @ bytes_of ''Objc''
                    @ bytes_of ''Lefx'' @ bytes_of ''Scl '' @ bytes_of ''UntF#Prc'';
          asl = asl @ be_u64 (Scale ls);
          asl = asl @ bytes_of ''masterFXSwitch'' @ bytes_of ''bool'';
          masterByte = (if Enabled ls then 1 else 0);
          asl = asl @ [masterByte]
      in if StrokeEnabled ls then write_stroke asl ls else asl)"


section \<open>Images (the parts of \<^verbatim>\<open>image\<close>, \<^verbatim>\<open>image/color\<close> and \<^verbatim>\<open>image/draw\<close> that are used)\<close>

text \<open>
  Go's \<^verbatim>\<open>int\<close> is taken to be 64 bits wide. Coordinates and sizes are modelled as
  \<^typ>\<open>int\<close>; the model follows the code wherever no \<^verbatim>\<open>int\<close> operation overflows,
  which is the case for all bounds below \<open>2^62\<close>. An image is represented by its
  bounds and its pixels as \<^verbatim>\<open>color.RGBA\<close> values (what \<^verbatim>\<open>addPaintLayerToZip\<close>
  obtains by drawing the layer's image into a fresh \<^verbatim>\<open>image.RGBA\<close>).
\<close>

datatype RGBA = RGBA (rgba_R: byte) (rgba_G: byte) (rgba_B: byte) (rgba_A: byte)

record Rectangle =
  MinX :: int
  MinY :: int
  MaxX :: int
  MaxY :: int

definition Dx :: "Rectangle \<Rightarrow> int" where
  "Dx r = MaxX r - MinX r"

definition Dy :: "Rectangle \<Rightarrow> int" where
  "Dy r = MaxY r - MinY r"

text \<open>\<^verbatim>\<open>image.Rect(x0, y0, x1, y1)\<close> swaps the coordinates that are out of order.\<close>

definition image_Rect :: "int \<Rightarrow> int \<Rightarrow> int \<Rightarrow> int \<Rightarrow> Rectangle" where
  "image_Rect x0 y0 x1 y1 =
     \<lparr>MinX = (if x0 > x1 then x1 else x0), MinY = (if y0 > y1 then y1 else y0),
      MaxX = (if x0 > x1 then x0 else x1), MaxY = (if y0 > y1 then y0 else y1)\<rparr>"

definition In_rect :: "int \<Rightarrow> int \<Rightarrow> Rectangle \<Rightarrow> bool" where
  "In_rect x y r \<longleftrightarrow> MinX r \<le> x \<and> x < MaxX r \<and> MinY r \<le> y \<and> y < MaxY r"

record image =
  Bounds :: Rectangle
  Pix :: "int \<Rightarrow> int \<Rightarrow> RGBA"

text \<open>\<^verbatim>\<open>(*image.RGBA).At\<close> returns the zero colour outside the bounds.\<close>

definition At :: "image \<Rightarrow> int \<Rightarrow> int \<Rightarrow> RGBA" where
  "At img x y = (if In_rect x y (Bounds img) then Pix img x y else RGBA 0 0 0 0)"

definition NewRGBA :: "Rectangle \<Rightarrow> image" where
  "NewRGBA r = \<lparr>Bounds = r, Pix = (\<lambda>x y. RGBA 0 0 0 0)\<rparr>"

text \<open>
  \<^verbatim>\<open>draw.Draw(dst, r, src, sp, draw.Src)\<close>: the rectangle \<open>r\<close> is clipped to the
  bounds of \<open>dst\<close> and to the bounds of \<open>src\<close> moved by \<open>r.Min - sp\<close>; inside the
  clipped rectangle the pixel \<open>(x, y)\<close> of \<open>dst\<close> becomes the pixel
  \<open>sp + (x, y) - r.Min\<close> of \<open>src\<close>; all other pixels of \<open>dst\<close> stay as they are.
\<close>

definition draw_Draw_Src :: "image \<Rightarrow> Rectangle \<Rightarrow> image \<Rightarrow> int \<times> int \<Rightarrow> image" where
  "draw_Draw_Src dst r src sp =
     dst\<lparr>Pix := (\<lambda>x y.
        let sx = fst sp + (x - MinX r); sy = snd sp + (y - MinY r)
        in if In_rect x y r \<and> In_rect x y (Bounds dst) \<and> In_rect sx sy (Bounds src)
           then Pix src sx sy else Pix dst x y)\<rparr>"

text \<open>The same with a \<^verbatim>\<open>image.Uniform\<close> source of colour \<open>c\<close>, whose bounds are unlimited.\<close>

definition draw_Draw_Uniform :: "image \<Rightarrow> Rectangle \<Rightarrow> RGBA \<Rightarrow> image" where
  "draw_Draw_Uniform dst r c =
     dst\<lparr>Pix := (\<lambda>x y. if In_rect x y r \<and> In_rect x y (Bounds dst) then c else Pix dst x y)\<rparr>"

text \<open>
  \<^verbatim>\<open>color.RGBA.RGBA()\<close>: each 8-bit channel \<open>v\<close> is widened to 32 bits and returned as
  \<open>v | v << 8\<close>.
\<close>

definition RGBA_method :: "RGBA \<Rightarrow> 32 word \<times> 32 word \<times> 32 word \<times> 32 word" where
  "RGBA_method c =
     (let r = ucast (rgba_R c); r = r OR push_bit 8 r;
          g = ucast (rgba_G c); g = g OR push_bit 8 g;
          b = ucast (rgba_B c); b = b OR push_bit 8 b;
          a = ucast (rgba_A c); a = a OR push_bit 8 a
      in (r, g, b, a))"

text \<open>
  \<^verbatim>\<open>PaintLayer.Image\<close> is an \<^verbatim>\<open>interface{}\<close>: it is \<^verbatim>\<open>nil\<close>, an
  \<^verbatim>\<open>image.Image\<close>, or a value of some other type.
\<close>

datatype image_value = NilImage | AnImage image | NotAnImage

record PaintLayer =
  Image :: image_value
  ImagePath :: string
  Name_p :: string
  Visible_p :: bool
  Opacity_p :: int
  X_p :: int
  Y_p :: int

text \<open>
  An element of \<^verbatim>\<open>KritaDocument.Layers\<close> is an \<^verbatim>\<open>interface{}\<close>: a pointer to a
  \<^verbatim>\<open>ShapeLayer\<close>, a pointer to a \<^verbatim>\<open>PaintLayer\<close>, or anything else (which every type
  switch of the code skips).
\<close>

datatype Layer = ShapeLayerPtr ShapeLayer | PaintLayerPtr PaintLayer | OtherValue

record LayerInfo =
  Layer :: Layer
  UUID_info :: string
  LayerName :: string

record KritaDocument =
  Width :: int
  Height :: int
  Layers :: "Layer list"
  TempDir :: string


section \<open>Errors\<close>

text \<open>
  An \<^verbatim>\<open>error\<close> returned by the code is a value: a failed file-system call (with the
  path), the \<^verbatim>\<open>errors.New("invalid image type")\<close> of \<^verbatim>\<open>addPaintLayerToZip\<close>, an
  error handed back by an external library, or a run-time panic.
\<close>

datatype error =
    ErrNotExist string
  | ErrIsDir string
  | ErrNotDir string
  | ErrInvalidImageType
  | ErrExternal string
  | Panic string

section \<open>\<^verbatim>\<open>CreateLayerStylesASL\<close>\<close>

text \<open>
  The test \<^verbatim>\<open>sl, ok := li.Layer.(*layers.ShapeLayer); ok && sl.LayerStyle != nil\<close>,
  shared by the first and the second loop.
\<close>

definition styled :: "LayerInfo \<Rightarrow> (ShapeLayer \<times> LayerStyle) option" where
  "styled li =
     (case Layer li of
        ShapeLayerPtr sl \<Rightarrow> (case LayerStyle sl of Some ls \<Rightarrow> Some (sl, ls) | None \<Rightarrow> None)
      | _ \<Rightarrow> None)"

text \<open>The first loop: \<^verbatim>\<open>numStyles\<close> counts the styled layers.\<close>

definition count_styles :: "LayerInfo list \<Rightarrow> int" where
  "count_styles layerInfos =
     foldl (\<lambda>numStyles li. if styled li \<noteq> None then numStyles + 1 else numStyles) 0 layerInfos"

text \<open>
  The second loop. For a styled layer it remembers the buffer length, reserves four
  zero bytes, appends the body, and then patches the reserved bytes with
  \<^verbatim>\<open>uint32(asl.Len() - styleStartPos - 4)\<close>.
\<close>

fun write_styles :: "byte list \<Rightarrow> LayerInfo list \<Rightarrow> error + byte list" where
  "write_styles asl [] = Inr asl"
| "write_styles asl (li # lis) =
     (case styled li of
        None \<Rightarrow> write_styles asl lis
      | Some (sl, ls) \<Rightarrow>
          (let styleStartPos = length asl;
               asl1 = asl @ be_u32 0;
               asl2 = write_style_body asl1 sl ls;
               styleSize = word_of_int (int (length asl2) - int styleStartPos - 4)
           in case PutUint32 asl2 styleStartPos styleSize of
                None \<Rightarrow> Inl (Panic ''slice bounds out of range'')
              | Some asl3 \<Rightarrow> write_styles asl3 lis))"

definition CreateLayerStylesASL :: "LayerInfo list \<Rightarrow> error + byte list" where
  "CreateLayerStylesASL layerInfos =
     (let asl = be_u16 2;
          asl = asl @ bytes_of ''8BSL'';
          asl = asl @ be_u16 3;
          asl = asl @ be_u32 0;
          numStyles = count_styles layerInfos;
          asl = asl @ be_u32 (word_of_int numStyles)
      in write_styles asl layerInfos)"

text \<open>
  A reader of the style block: after the 16 header bytes it reads, \<open>k\<close> times, a
  big-endian u32 length and then that many bytes as the record's body. It fails when
  the input ends early or is not used up.
\<close>

fun read_records :: "nat \<Rightarrow> byte list \<Rightarrow> byte list list option" where
  "read_records 0 bs = (if bs = [] then Some [] else None)"
| "read_records (Suc k) bs =
     (if length bs < 4 then None
      else let n = unat (Uint32 (take 4 bs)); rest = drop 4 bs
           in if length rest < n then None
              else map_option (\<lambda>bodies. take n rest # bodies) (read_records k (drop n rest)))"

definition read_style_block :: "byte list \<Rightarrow> (nat \<times> byte list list) option" where
  "read_style_block bs =
     (if length bs < 16 then None
      else let style_count = unat (Uint32 (take 4 (drop 12 bs)))
           in map_option (\<lambda>bodies. (style_count, bodies)) (read_records style_count (drop 16 bs)))"

text \<open>
  One record of the style block as a reader sees it: the length field, then the body.
  (A notion of the proofs, not a function of the source.)
\<close>

definition style_record :: "ShapeLayer \<times> LayerStyle \<Rightarrow> byte list" where
  "style_record p = (case p of (sl, ls) \<Rightarrow>
     be_u32 (word_of_nat (length (write_style_body [] sl ls))) @ write_style_body [] sl ls)"

section \<open>Formatting and reading decimal numbers\<close>

text \<open>
  \<^verbatim>\<open>fmt.Sprintf("%d", i)\<close> for an \<^verbatim>\<open>int\<close>: the decimal digits, most significant
  first, after a minus sign for a negative number.
\<close>

definition digit_char :: "nat \<Rightarrow> char" where
  "digit_char d = char_of (48 + d)"

fun digits :: "nat \<Rightarrow> string" where
  "digits n = (if n < 10 then [digit_char n] else digits (n div 10) @ [digit_char (n mod 10)])"

declare digits.simps [simp del]

definition itoa :: "int \<Rightarrow> string" where
  "itoa i = (if i < 0 then CHR ''-'' # digits (nat (- i)) else digits (nat i))"

text \<open>
  The reader's side, used to say what a header line declares: bytes back to
  characters, a line cut at the commas, and an unsigned decimal number.
\<close>

definition string_of :: "byte list \<Rightarrow> string" where
  "string_of bs = map (\<lambda>b. char_of (unat b)) bs"

fun split_on :: "char \<Rightarrow> string \<Rightarrow> string list" where
  "split_on d [] = [[]]"
| "split_on d (c # cs) =
     (if c = d then [] # split_on d cs
      else (case split_on d cs of f # fs \<Rightarrow> (c # f) # fs | [] \<Rightarrow> [[c]]))"

definition is_digit :: "char \<Rightarrow> bool" where
  "is_digit c \<longleftrightarrow> 48 \<le> (of_char c :: nat) \<and> (of_char c :: nat) \<le> 57"

definition parse_decimal :: "string \<Rightarrow> nat option" where
  "parse_decimal s =
     (if s \<noteq> [] \<and> list_all is_digit s
      then Some (foldl (\<lambda>a c. 10 * a + (of_char c - 48)) 0 s) else None)"

text \<open>
  The four fields of a tile header line \<^verbatim>\<open>"<left>,<top>,<tag>,<payload-length>\n"\<close>.
\<close>

definition parse_tile_header :: "string \<Rightarrow> (nat \<times> nat \<times> string \<times> nat) option" where
  "parse_tile_header line =
     (if line = [] \<or> last line \<noteq> CHR 0x0A then None
      else case split_on CHR '','' (butlast line) of
             [l, t, tag, n] \<Rightarrow>
               (case (parse_decimal l, parse_decimal t, parse_decimal n) of
                  (Some left, Some top', Some len) \<Rightarrow> Some (left, top', tag, len)
                | _ \<Rightarrow> None)
           | _ \<Rightarrow> None)"

section \<open>Conversions between \<^verbatim>\<open>int\<close> and \<^verbatim>\<open>float64\<close>\<close>

text \<open>
  \<^verbatim>\<open>float64(i)\<close> for an \<^verbatim>\<open>int\<close> \<open>i\<close> is the nearest number with a 53-bit
  significand, ties going to the even significand. The result is again an integer, so
  it is modelled by its value: a number of at most 53 bits is kept; a longer one loses
  its \<open>e\<close> low bits, where \<open>e\<close> is the bit length minus 53.

  The code computes with such values only by \<^verbatim>\<open>math.Min\<close>, by division by
  \<^verbatim>\<open>64.0\<close> followed by \<^verbatim>\<open>math.Ceil\<close>, and by conversion back with \<^verbatim>\<open>int(...)\<close>.
  For integer values below \<open>2^63\<close> all of these are exact in \<^verbatim>\<open>float64\<close> (a division
  by a power of two only changes the exponent), so they are modelled by the exact
  operations on the values.
\<close>

fun bitlen :: "nat \<Rightarrow> nat" where
  "bitlen n = (if n = 0 then 0 else Suc (bitlen (n div 2)))"

declare bitlen.simps [simp del]

definition float64_round :: "nat \<Rightarrow> nat" where
  "float64_round n =
     (if bitlen n \<le> 53 then n
      else let e = bitlen n - 53; q = n div 2 ^ e; r = n mod 2 ^ e; half = 2 ^ (e - 1)
           in (if r > half \<or> (r = half \<and> odd q) then q + 1 else q) * 2 ^ e)"

definition float64_of_int :: "int \<Rightarrow> int" where
  "float64_of_int i =
     (if i < 0 then - int (float64_round (nat (- i))) else int (float64_round (nat i)))"

text \<open>\<^verbatim>\<open>int(math.Ceil(float64(w) / 64.0))\<close>.\<close>

definition ceil_div_64 :: "int \<Rightarrow> int" where
  "ceil_div_64 w = - ((- float64_of_int w) div 64)"

text \<open>\<^verbatim>\<open>int(math.Min(float64(a), float64(b)))\<close>.\<close>

definition float_min :: "int \<Rightarrow> int \<Rightarrow> int" where
  "float_min a b = min (float64_of_int a) (float64_of_int b)"

section \<open>The tile codec (\<^verbatim>\<open>SaveKritaLayer\<close>)\<close>

text \<open>
  \<^verbatim>\<open>lzf.Compress\<close> belongs to an external library; it is a parameter \<open>Compress\<close>
  that returns the compressed bytes or an error.
\<close>

type_synonym compressor = "byte list \<Rightarrow> error + byte list"

record tile_entry =
  Header :: "byte list"
  Data :: "byte list"

text \<open>
  Lines 443 to 448: the 64 by 64 tile image at tile column \<open>tx\<close> and tile row \<open>ty\<close>.
  Only the corner \<^verbatim>\<open>srcRect.Min\<close> of the source rectangle is handed to \<^verbatim>\<open>draw.Draw\<close>.
\<close>

definition tile_image :: "image \<Rightarrow> int \<Rightarrow> int \<Rightarrow> int \<Rightarrow> int \<Rightarrow> image" where
  "tile_image img w h tx ty =
     (let left = tx * 64;
          top' = ty * 64;
          tileRect = image_Rect 0 0 64 64;
          tileImg = NewRGBA tileRect;
          srcRect = image_Rect left top' (float_min (left + 64) w) (float_min (top' + 64) h)
      in draw_Draw_Src tileImg tileRect img (MinX srcRect, MinY srcRect))"

text \<open>
  Lines 449 to 460: the body of the inner loop appends one byte of the pixel
  \<open>(x, y)\<close> to each of the four slices (\<open>plane_append\<close>); the outer loop runs over the
  rows and the inner loop over the columns; then the slices are joined.
\<close>

type_synonym planes = "byte list \<times> byte list \<times> byte list \<times> byte list"

definition plane_append :: "image \<Rightarrow> nat \<Rightarrow> planes \<Rightarrow> nat \<Rightarrow> planes" where
  "plane_append tileImg y planes x =
     (case planes of (blue, green, red, alpha) \<Rightarrow>
        (case RGBA_method (At tileImg (int x) (int y)) of (r, g, b, a) \<Rightarrow>
           (blue @ [ucast (drop_bit 8 b)], green @ [ucast (drop_bit 8 g)],
            red @ [ucast (drop_bit 8 r)], alpha @ [ucast (drop_bit 8 a)])))"

definition tile_planes :: "image \<Rightarrow> planes" where
  "tile_planes tileImg =
     foldl (\<lambda>planes y. foldl (plane_append tileImg y) planes [0..<64]) ([], [], [], []) [0..<64]"

definition planeData :: "image \<Rightarrow> byte list" where
  "planeData tileImg =
     (case tile_planes tileImg of (blue, green, red, alpha) \<Rightarrow> (blue @ green) @ (red @ alpha))"

text \<open>
  One colour plane of a tile image, row by row: the notion the theorems use to say
  what the loop nest computes.
\<close>

definition plane_of :: "(RGBA \<Rightarrow> byte) \<Rightarrow> image \<Rightarrow> byte list" where
  "plane_of channel tileImg =
     concat (map (\<lambda>y. map (\<lambda>x. channel (At tileImg (int x) (int y))) [0..<64]) [0..<64])"

text \<open>Lines 461 to 470: compression, the flag byte, the header line.\<close>

definition tile_record :: "compressor \<Rightarrow> int \<Rightarrow> int \<Rightarrow> byte list \<Rightarrow> tile_entry" where
  "tile_record Compress left top' plane_data =
     (let compressed = (case Compress plane_data of Inl err \<Rightarrow> [] | Inr c \<Rightarrow> c);
          tileData = [0x01] @ compressed;
          headerLine = itoa left @ '','' @ itoa top' @ '',LZF,''
                       @ itoa (int (length tileData)) @ [CHR 0x0A]
      in \<lparr>Header = bytes_of headerLine, Data = tileData\<rparr>)"

definition make_tile :: "compressor \<Rightarrow> image \<Rightarrow> int \<Rightarrow> int \<Rightarrow> int \<Rightarrow> int \<Rightarrow> tile_entry" where
  "make_tile Compress img w h tx ty =
     tile_record Compress (tx * 64) (ty * 64) (planeData (tile_image img w h tx ty))"

text \<open>Lines 433 to 472: the loop over the tile rows and, inside, the loop over the tile columns.\<close>

definition tile_entries :: "compressor \<Rightarrow> image \<Rightarrow> tile_entry list" where
  "tile_entries Compress img =
     (let w = Dx (Bounds img);
          h = Dy (Bounds img);
          nx = ceil_div_64 w;
          ny = ceil_div_64 h
      in concat (map (\<lambda>ty. map (\<lambda>tx. make_tile Compress img w h tx ty) [0..nx - 1])
                     [0..ny - 1]))"

text \<open>
  The order the specification asks for, in its own words: "for each tile row
  top-to-bottom, each tile column left-to-right", the origin of the tile in column
  \<open>tx\<close> and row \<open>ty\<close> being \<open>(64 * tx, 64 * ty)\<close>.
\<close>

definition row_major_origins :: "nat \<Rightarrow> nat \<Rightarrow> (nat \<times> nat) list" where
  "row_major_origins nx ny =
     concat (map (\<lambda>ty. map (\<lambda>tx. (64 * tx, 64 * ty)) [0..<nx]) [0..<ny])"

text \<open>The origin that a tile's header line declares.\<close>

definition header_origin :: "tile_entry \<Rightarrow> (nat \<times> nat) option" where
  "header_origin e =
     map_option (\<lambda>(left, top', tag, len). (left, top')) (parse_tile_header (string_of (Header e)))"

text \<open>The fixed lines that open a layer file, up to the tile count.\<close>

definition layer_file_header :: "nat \<Rightarrow> byte list" where
  "layer_file_header count =
     bytes_of (''VERSION 2'' @ [CHR 0x0A] @ ''TILEWIDTH 64'' @ [CHR 0x0A]
               @ ''TILEHEIGHT 64'' @ [CHR 0x0A] @ ''PIXELSIZE 4'' @ [CHR 0x0A]
               @ ''DATA '' @ itoa (int count) @ [CHR 0x0A])"

text \<open>Lines 473 to 484: the bytes handed to \<^verbatim>\<open>ioutil.WriteFile\<close>.\<close>

definition krita_layer_bytes :: "compressor \<Rightarrow> image \<Rightarrow> byte list" where
  "krita_layer_bytes Compress img =
     (let tileEntries = tile_entries Compress img;
          headerBuf = bytes_of (''VERSION 2'' @ [CHR 0x0A]);
          headerBuf = headerBuf @ bytes_of (''TILEWIDTH 64'' @ [CHR 0x0A]);
          headerBuf = headerBuf @ bytes_of (''TILEHEIGHT 64'' @ [CHR 0x0A]);
          headerBuf = headerBuf @ bytes_of (''PIXELSIZE 4'' @ [CHR 0x0A]);
          headerBuf = headerBuf
                      @ bytes_of (''DATA '' @ itoa (int (length tileEntries)) @ [CHR 0x0A])
      in foldl (\<lambda>outBuf entry. outBuf @ Header entry @ Data entry) headerBuf tileEntries)"

section \<open>The XML tree (\<^verbatim>\<open>xmlhelper.XMLNode\<close>)\<close>

text \<open>
  \<^verbatim>\<open>Attrs\<close> is a Go map, modelled as a partial function. A \<^verbatim>\<open>for k, v := range\<close>
  loop over a Go map visits every entry once, in an order that the language leaves
  open and that may change from one loop to the next: \<open>range_order m kvs\<close> says that
  \<open>kvs\<close> is one such enumeration of the map \<open>m\<close>.
\<close>

datatype XMLNode =
  XMLNode (Tag: string) (Attrs: "string \<rightharpoonup> string") (Children: "XMLNode list") (Text: string)

definition range_order :: "(string \<rightharpoonup> string) \<Rightarrow> (string \<times> string) list \<Rightarrow> bool" where
  "range_order m kvs \<longleftrightarrow> distinct (map fst kvs) \<and> map_of kvs = m"

text \<open>\<^verbatim>\<open>fmt.Sprintf(` %s="%s"`, k, v)\<close>.\<close>

definition attr_text :: "string \<times> string \<Rightarrow> string" where
  "attr_text kv = '' '' @ fst kv @ ''='' @ [CHR 0x22] @ snd kv @ [CHR 0x22]"

text \<open>The last four lines of \<^verbatim>\<open>ToString\<close>: a self-closing tag when \<open>inner\<close> is empty.\<close>

definition element_text :: "string \<Rightarrow> string \<Rightarrow> string \<Rightarrow> string" where
  "element_text tag attrs inner =
     (if inner = [] then ''<'' @ tag @ attrs @ ''/>''
      else ''<'' @ tag @ attrs @ ''>'' @ inner @ ''</'' @ tag @ ''>'')"

text \<open>
  \<^verbatim>\<open>ToString\<close> is a relation between a node, an indentation and a possible result,
  because the order of the attributes is not determined: the first loop appends the
  attributes in one enumeration of the map, the second loop appends the children, each
  rendered two spaces deeper, in their order.
\<close>

inductive ToString :: "XMLNode \<Rightarrow> string \<Rightarrow> string \<Rightarrow> bool" where
  ToString_node:
    "range_order (Attrs n) kvs \<Longrightarrow>
     list_all2 (\<lambda>child s. ToString child (indent @ ''  '') s) (Children n) rendered \<Longrightarrow>
     ToString n indent
       (element_text (Tag n)
          (foldl (\<lambda>attrs kv. attrs @ attr_text kv) [] kvs)
          (foldl (\<lambda>inner s. inner @ [CHR 0x0A] @ indent @ ''  '' @ s) (Text n) rendered))"

text \<open>No node of the tree has more than one attribute.\<close>

fun at_most_one_attr :: "XMLNode \<Rightarrow> bool" where
  "at_most_one_attr (XMLNode tag attrs children txt) \<longleftrightarrow>
     (\<forall>k k'. attrs k \<noteq> None \<longrightarrow> attrs k' \<noteq> None \<longrightarrow> k = k')
     \<and> (\<forall>child \<in> set children. at_most_one_attr child)"

section \<open>The file system, the archive and the environment\<close>

text \<open>
  The state that \<^verbatim>\<open>Save\<close> works on: the file system, a map from paths to directories
  and files, and the members written so far through the \<^verbatim>\<open>zip.Writer\<close> to the open
  output file, in order. A call that can fail returns an error or a value, together
  with the state it leaves behind.

  The file-system calls fail in the model for these reasons only: \<^verbatim>\<open>ReadFile\<close> of a
  path that is not a file; \<^verbatim>\<open>WriteFile\<close> and \<^verbatim>\<open>Create\<close> on a directory or below a
  missing directory; \<^verbatim>\<open>MkdirAll\<close> through a file. Writing a member to the archive
  does not fail.
\<close>

datatype fs_node = Dir | File "byte list"

record world =
  fs :: "string \<rightharpoonup> fs_node"
  archive :: "(string \<times> byte list) list"

type_synonym 'a io = "world \<Rightarrow> (error + 'a) \<times> world"

definition returnIO :: "'a \<Rightarrow> 'a io" where
  "returnIO x = (\<lambda>w. (Inr x, w))"

definition failIO :: "error \<Rightarrow> 'a io" where
  "failIO e = (\<lambda>w. (Inl e, w))"

text \<open>\<open>bindIO m f\<close>: run \<open>m\<close>; \<^verbatim>\<open>if err != nil { return err }\<close>; go on with \<open>f\<close>.\<close>

definition bindIO :: "'a io \<Rightarrow> ('a \<Rightarrow> 'b io) \<Rightarrow> 'b io" where
  "bindIO m f = (\<lambda>w. case m w of (Inl e, w') \<Rightarrow> (Inl e, w') | (Inr x, w') \<Rightarrow> f x w')"

definition thenIO :: "unit io \<Rightarrow> 'b io \<Rightarrow> 'b io" where
  "thenIO m k = bindIO m (\<lambda>_. k)"

text \<open>
  \<^verbatim>\<open>filepath.Join\<close> joins the non-empty elements with a slash. (The final
  \<^verbatim>\<open>Clean\<close> does nothing when the elements are clean relative paths, which is
  assumed of \<^verbatim>\<open>TempDir\<close>.) \<^verbatim>\<open>filepath.Base\<close> is the last element of a path.
\<close>

fun join_slash :: "string list \<Rightarrow> string" where
  "join_slash [] = []"
| "join_slash [e] = e"
| "join_slash (e # es) = e @ ''/'' @ join_slash es"

definition filepath_Join :: "string list \<Rightarrow> string" where
  "filepath_Join elems = join_slash (filter (\<lambda>e. e \<noteq> []) elems)"

definition filepath_Base :: "string \<Rightarrow> string" where
  "filepath_Base path =
     (if path = [] then ''.''
      else let stripped = rev (dropWhile (\<lambda>c. c = CHR ''/'') (rev path));
               base = rev (takeWhile (\<lambda>c. c \<noteq> CHR ''/'') (rev stripped))
           in if base = [] then ''/'' else base)"

text \<open>The directories on the way to a path: \<open>a\<close>, \<open>a/b\<close>, \<open>a/b/c\<close> for \<open>a/b/c\<close>.\<close>

fun dir_chain_from :: "string \<Rightarrow> string \<Rightarrow> string list" where
  "dir_chain_from seen [] = (if seen = [] then [] else [seen])"
| "dir_chain_from seen (c # cs) =
     (if c = CHR ''/'' \<and> seen \<noteq> [] then seen # dir_chain_from (seen @ [c]) cs
      else dir_chain_from (seen @ [c]) cs)"

definition dir_chain :: "string \<Rightarrow> string list" where
  "dir_chain path = dir_chain_from [] path"

definition is_file :: "world \<Rightarrow> string \<Rightarrow> bool" where
  "is_file w path = (case fs w path of Some (File content) \<Rightarrow> True | _ \<Rightarrow> False)"

definition is_dir :: "world \<Rightarrow> string \<Rightarrow> bool" where
  "is_dir w path = (case fs w path of Some Dir \<Rightarrow> True | _ \<Rightarrow> False)"

definition parent_ok :: "world \<Rightarrow> string \<Rightarrow> bool" where
  "parent_ok w path = list_all (is_dir w) (butlast (dir_chain path))"

definition MkdirAll :: "string \<Rightarrow> unit io" where
  "MkdirAll path w =
     (if path = [] then (Inl (ErrNotExist path), w)
      else if list_ex (is_file w) (dir_chain path) then (Inl (ErrNotDir path), w)
      else (Inr (), w\<lparr>fs := foldl (\<lambda>m d. m(d \<mapsto> Dir)) (fs w) (dir_chain path)\<rparr>))"

definition WriteFile :: "string \<Rightarrow> byte list \<Rightarrow> unit io" where
  "WriteFile path content w =
     (if is_dir w path then (Inl (ErrIsDir path), w)
      else if \<not> parent_ok w path then (Inl (ErrNotExist path), w)
      else (Inr (), w\<lparr>fs := (fs w)(path \<mapsto> File content)\<rparr>))"

definition ReadFile :: "string \<Rightarrow> byte list io" where
  "ReadFile path w =
     (case fs w path of
        Some (File content) \<Rightarrow> (Inr content, w)
      | Some Dir \<Rightarrow> (Inl (ErrIsDir path), w)
      | None \<Rightarrow> (Inl (ErrNotExist path), w))"

text \<open>
  \<^verbatim>\<open>os.Create(outputPath)\<close> followed by \<^verbatim>\<open>zip.NewWriter(outFile)\<close>: the output file
  exists and is empty, and so is the archive.
\<close>

definition Create :: "string \<Rightarrow> unit io" where
  "Create path w =
     (if is_dir w path then (Inl (ErrIsDir path), w)
      else if \<not> parent_ok w path then (Inl (ErrNotExist path), w)
      else (Inr (), w\<lparr>fs := (fs w)(path \<mapsto> File []), archive := []\<rparr>))"

definition writeZipFile :: "string \<Rightarrow> byte list \<Rightarrow> unit io" where
  "writeZipFile name content w = (Inr (), w\<lparr>archive := archive w @ [(name, content)]\<rparr>)"

text \<open>
  \<^verbatim>\<open>os.RemoveAll(path)\<close> removes the path and everything below it; for the empty path
  it does nothing. Its result is ignored by the code.
\<close>

definition RemoveAll :: "string \<Rightarrow> unit io" where
  "RemoveAll path w =
     (Inr (), w\<lparr>fs := (\<lambda>p. if path \<noteq> [] \<and> (p = path \<or> take (length path + 1) p = path @ ''/'')
                           then None else fs w p)\<rparr>)"

text \<open>
  What the code takes from outside: the external compressor, the random identifiers
  (\<open>uuid_New env i\<close> is the one drawn for the layer with index \<open>i\<close>), the scaling
  to a thumbnail image and the PNG encoder of the standard library, and the text of the
  two XML manifests. \<^verbatim>\<open>createDocumentInfo\<close> and \<^verbatim>\<open>createMainDoc\<close> cannot fail; their
  text depends on the clock, on the identifiers and on the order in which \<^verbatim>\<open>ToString\<close>
  meets the attributes, and no function modelled here looks into it.
\<close>

record env =
  lzf_Compress :: compressor
  uuid_New :: "nat \<Rightarrow> string"
  ApproxBiLinear_Scale :: "image \<Rightarrow> image \<Rightarrow> image"
  png_Encode :: "image \<Rightarrow> error + byte list"
  createDocumentInfo :: string
  createMainDoc :: "KritaDocument \<Rightarrow> LayerInfo list \<Rightarrow> string"

section \<open>The packager (\<^verbatim>\<open>KritaDocument.Save\<close> and its helpers)\<close>

definition SaveKritaLayer :: "compressor \<Rightarrow> image \<Rightarrow> string \<Rightarrow> unit io" where
  "SaveKritaLayer Compress img outputPath = WriteFile outputPath (krita_layer_bytes Compress img)"

text \<open>
  \<^verbatim>\<open>image.NewRGBA\<close> panics for a rectangle of negative or huge dimensions.
\<close>

definition NewRGBA_io :: "Rectangle \<Rightarrow> image io" where
  "NewRGBA_io r =
     (if Dx r < 0 \<or> Dy r < 0 \<or> 4 * Dx r * Dy r \<ge> 2 ^ 63
      then failIO (Panic ''image: NewRGBA Rectangle has huge or negative dimensions'')
      else returnIO (NewRGBA r))"

text \<open>\<^verbatim>\<open>GenerateSVGContent\<close>: a fixed header and a dummy \<^verbatim>\<open>svg\<close> element.\<close>

definition GenerateSVGContent :: "ShapeLayer \<Rightarrow> int \<Rightarrow> int \<Rightarrow> string" where
  "GenerateSVGContent layer width height =
     (let header = ''<?xml version='' @ [CHR 0x22] @ ''1.0'' @ [CHR 0x22] @ '' standalone=''
                   @ [CHR 0x22] @ ''no'' @ [CHR 0x22] @ ''?>'' @ [CHR 0x0A]
                   @ ''<!DOCTYPE svg PUBLIC '' @ [CHR 0x22] @ ''-//W3C//DTD SVG 20010904//EN''
                   @ [CHR 0x22] @ '' '' @ [CHR 0x22]
                   @ ''http://www.w3.org/TR/2001/REC-SVG-20010904/DTD/svg10.dtd''
                   @ [CHR 0x22] @ ''>'';
          svg = ''<svg width='' @ [CHR 0x22] @ itoa width @ [CHR 0x22]
                @ '' height='' @ [CHR 0x22] @ itoa height @ [CHR 0x22]
                @ '' viewBox='' @ [CHR 0x22] @ ''0 0 '' @ itoa width @ '' '' @ itoa height
                @ [CHR 0x22] @ '' xmlns='' @ [CHR 0x22] @ ''http://www.w3.org/2000/svg''
                @ [CHR 0x22] @ ''>'' @ [CHR 0x0A]
                @ ''  <!-- SVG content for layer '' @ Name layer @ '' -->'' @ [CHR 0x0A]
                @ ''</svg>''
      in header @ [CHR 0x0A] @ svg)"

text \<open>\<^verbatim>\<open>createAnimationMetadata\<close>: a constant text.\<close>

definition createAnimationMetadata :: string where
  "createAnimationMetadata =
     ''<?xml version='' @ [CHR 0x22] @ ''1.0'' @ [CHR 0x22] @ '' encoding='' @ [CHR 0x22]
     @ ''UTF-8'' @ [CHR 0x22] @ ''?>'' @ [CHR 0x0A]
     @ ''<animation-metadata xmlns='' @ [CHR 0x22] @ ''http://www.calligra.org/DTD/krita''
     @ [CHR 0x22] @ ''>'' @ [CHR 0x0A]
     @ ''<framerate type='' @ [CHR 0x22] @ ''value'' @ [CHR 0x22] @ '' value='' @ [CHR 0x22]
     @ ''24'' @ [CHR 0x22] @ ''/>'' @ [CHR 0x0A]
     @ ''<range from='' @ [CHR 0x22] @ ''0'' @ [CHR 0x22] @ '' type='' @ [CHR 0x22]
     @ ''timerange'' @ [CHR 0x22] @ '' to='' @ [CHR 0x22] @ ''100'' @ [CHR 0x22] @ ''/>''
     @ [CHR 0x0A]
     @ ''<currentTime type='' @ [CHR 0x22] @ ''value'' @ [CHR 0x22] @ '' value='' @ [CHR 0x22]
     @ ''0'' @ [CHR 0x22] @ ''/>'' @ [CHR 0x0A]
     @ ''<export-settings>'' @ [CHR 0x0A]
     @ ''<sequenceFilePath type='' @ [CHR 0x22] @ ''value'' @ [CHR 0x22] @ '' value=''
     @ [CHR 0x22] @ [CHR 0x22] @ ''/>'' @ [CHR 0x0A]
     @ ''<sequenceBaseName type='' @ [CHR 0x22] @ ''value'' @ [CHR 0x22] @ '' value=''
     @ [CHR 0x22] @ [CHR 0x22] @ ''/>'' @ [CHR 0x0A]
     @ ''<sequenceInitialFrameNumber type='' @ [CHR 0x22] @ ''value'' @ [CHR 0x22]
     @ '' value='' @ [CHR 0x22] @ ''-1'' @ [CHR 0x22] @ ''/>'' @ [CHR 0x0A]
     @ ''</export-settings>'' @ [CHR 0x0A]
     @ ''</animation-metadata>''"

text \<open>
  The first loop of \<^verbatim>\<open>Save\<close> (lines 89 to 104): the identifier and the file name
  \<^verbatim>\<open>layer<i+2>\<close> of the layer with index \<open>i\<close>. A shape layer without identifier
  gets a fresh one, which the loop also stores in the layer.
\<close>

definition layer_info :: "env \<Rightarrow> nat \<Rightarrow> Layer \<Rightarrow> LayerInfo" where
  "layer_info env i layer =
     (case layer of
        ShapeLayerPtr l \<Rightarrow>
          (let l = (if UUID l = [] then l\<lparr>UUID := ''{'' @ uuid_New env i @ ''}''\<rparr> else l)
           in \<lparr>Layer = ShapeLayerPtr l, UUID_info = UUID l,
               LayerName = ''layer'' @ itoa (int i + 2)\<rparr>)
      | PaintLayerPtr l \<Rightarrow>
          \<lparr>Layer = layer, UUID_info = ''{'' @ uuid_New env i @ ''}'',
           LayerName = ''layer'' @ itoa (int i + 2)\<rparr>
      | OtherValue \<Rightarrow> \<lparr>Layer = layer, UUID_info = [], LayerName = []\<rparr>)"

definition layer_infos :: "env \<Rightarrow> Layer list \<Rightarrow> LayerInfo list" where
  "layer_infos env layers = map (\<lambda>(i, layer). layer_info env i layer) (zip [0..<length layers] layers)"

definition addShapeLayerToZip :: "KritaDocument \<Rightarrow> ShapeLayer \<Rightarrow> string \<Rightarrow> unit io" where
  "addShapeLayerToZip doc layer layerName =
     (let dirName = filepath_Join [TempDir doc, ''layers'', layerName @ ''.shapelayer'']
      in thenIO (MkdirAll dirName)
        (let svgContent = GenerateSVGContent layer (Width doc) (Height doc);
             svgPath = filepath_Join [dirName, ''content.svg'']
         in thenIO (WriteFile svgPath (bytes_of svgContent))
           (bindIO (ReadFile svgPath) (\<lambda>data.
              writeZipFile
                (filepath_Join [''layers'', layerName @ ''.shapelayer'', ''content.svg''])
                data))))"

text \<open>The loop over \<^verbatim>\<open>filesToAdd\<close> at the end of \<^verbatim>\<open>addPaintLayerToZip\<close>.\<close>

fun add_files :: "string list \<Rightarrow> unit io" where
  "add_files [] = returnIO ()"
| "add_files (filePath # rest) =
     bindIO (ReadFile filePath) (\<lambda>data.
       (let relPath = filepath_Join [''layers'', filepath_Base filePath]
        in thenIO (writeZipFile relPath data) (add_files rest)))"

definition addPaintLayerToZip :: "env \<Rightarrow> KritaDocument \<Rightarrow> PaintLayer \<Rightarrow> string \<Rightarrow> unit io" where
  "addPaintLayerToZip env doc layer layerName =
     (case Image layer of
        AnImage img \<Rightarrow>
          bindIO (NewRGBA_io (Bounds img)) (\<lambda>rgba.
            (let rgba = draw_Draw_Src rgba (Bounds img) img (MinX (Bounds img), MinY (Bounds img));
                 layerPath = filepath_Join [TempDir doc, ''layers'', layerName]
             in thenIO (SaveKritaLayer (lzf_Compress env) rgba layerPath)
               (let defaultPixelPath = layerPath @ ''.defaultpixel''
                in thenIO (WriteFile defaultPixelPath [0, 0, 0, 0])
                  (bindIO (ReadFile ''layer3.icc'') (\<lambda>iccData.
                    (let iccPath = layerPath @ ''.icc''
                     in thenIO (WriteFile iccPath iccData)
                          (add_files [layerPath, defaultPixelPath, iccPath])))))))
      | _ \<Rightarrow> failIO ErrInvalidImageType)"

fun processLayers :: "env \<Rightarrow> KritaDocument \<Rightarrow> LayerInfo list \<Rightarrow> unit io" where
  "processLayers env doc [] = returnIO ()"
| "processLayers env doc (li # rest) =
     (case Layer li of
        ShapeLayerPtr layer \<Rightarrow>
          thenIO (addShapeLayerToZip doc layer (LayerName li)) (processLayers env doc rest)
      | PaintLayerPtr layer \<Rightarrow>
          thenIO (addPaintLayerToZip env doc layer (LayerName li)) (processLayers env doc rest)
      | OtherValue \<Rightarrow> processLayers env doc rest)"

text \<open>
  \<^verbatim>\<open>createPreview\<close>, lines 331 to 343: the image that is scaled. The type assertion
  \<^verbatim>\<open>pl.Image.(image.Image)\<close> panics for a value that is not an image.
\<close>

definition preview_source :: "KritaDocument \<Rightarrow> image io" where
  "preview_source doc =
     (let from_layer =
            (if length (Layers doc) > 0 then
               (case last (Layers doc) of
                  PaintLayerPtr pl \<Rightarrow>
                    (case Image pl of
                       NilImage \<Rightarrow> Inr None
                     | AnImage img \<Rightarrow> Inr (Some img)
                     | NotAnImage \<Rightarrow> Inl (Panic ''interface conversion''))
                | _ \<Rightarrow> Inr None)
             else Inr None)
      in case from_layer of
           Inl e \<Rightarrow> failIO e
         | Inr (Some preview) \<Rightarrow> returnIO preview
         | Inr None \<Rightarrow>
             bindIO (NewRGBA_io (image_Rect 0 0 (Width doc) (Height doc))) (\<lambda>preview.
               returnIO (draw_Draw_Uniform preview (Bounds preview) (RGBA 0 0 0 0))))"

definition createPreview :: "env \<Rightarrow> KritaDocument \<Rightarrow> unit io" where
  "createPreview env doc =
     bindIO (preview_source doc) (\<lambda>preview.
       (let thumb = NewRGBA (image_Rect 0 0 256 256);
            thumb = ApproxBiLinear_Scale env thumb preview
        in case png_Encode env thumb of
             Inl err \<Rightarrow> failIO err
           | Inr buf \<Rightarrow> writeZipFile ''preview.png'' buf))"

text \<open>
  \<^verbatim>\<open>Save\<close>. The deferred \<^verbatim>\<open>Close\<close> calls finish the archive on every path and
  change nothing that the model records; \<^verbatim>\<open>fmt.Printf\<close> is left out. The call of
  \<^verbatim>\<open>os.RemoveAll\<close> is the last step of the path without error.
\<close>

definition Save :: "env \<Rightarrow> KritaDocument \<Rightarrow> string \<Rightarrow> unit io" where
  "Save env doc outputPath =
     thenIO (MkdirAll (filepath_Join [TempDir doc, ''layers'']))
    (thenIO (MkdirAll (filepath_Join [TempDir doc, ''annotations'']))
    (thenIO (MkdirAll (filepath_Join [TempDir doc, ''animation'']))
    (let layerInfos = layer_infos env (Layers doc)
     in thenIO (Create outputPath)
       (thenIO (writeZipFile ''mimetype'' (bytes_of ''application/x-krita''))
       (thenIO (writeZipFile ''documentinfo.xml'' (bytes_of (createDocumentInfo env)))
       (thenIO (writeZipFile ''maindoc.xml'' (bytes_of (createMainDoc env doc layerInfos)))
       (thenIO (processLayers env doc layerInfos)
       (thenIO (writeZipFile (filepath_Join [TempDir doc, ''animation'', ''index.xml''])
                  (bytes_of createAnimationMetadata))
       (bindIO (ReadFile ''layer3.icc'') (\<lambda>iccData.
        thenIO (writeZipFile (filepath_Join [TempDir doc, ''annotations'', ''icc'']) iccData)
       (thenIO (createPreview env doc)
       (let hasStyle = list_ex (\<lambda>li. styled li \<noteq> None) layerInfos
        in thenIO
             (if hasStyle then
                (case CreateLayerStylesASL layerInfos of
                   Inl err \<Rightarrow> failIO err
                 | Inr aslBytes \<Rightarrow>
                     writeZipFile
                       (filepath_Join [TempDir doc, ''annotations'', ''layerstyles.asl''])
                       aslBytes)
              else returnIO ())
             (thenIO (RemoveAll (TempDir doc)) (returnIO ()))))))))))))))"

text \<open>The names of the archive members, in the order in which they were written.\<close>

definition member_names :: "world \<Rightarrow> string list" where
  "member_names w = map fst (archive w)"

text \<open>
  The members that \<^verbatim>\<open>processLayers\<close> adds for one layer, by name: the SVG content of
  a shape layer; the tile file, the default pixel and the colour profile of a paint
  layer.
\<close>

definition layer_members :: "LayerInfo \<Rightarrow> string list" where
  "layer_members li =
     (case Layer li of
        ShapeLayerPtr layer \<Rightarrow> [''layers/'' @ LayerName li @ ''.shapelayer/content.svg'']
      | PaintLayerPtr layer \<Rightarrow>
          [''layers/'' @ LayerName li, ''layers/'' @ LayerName li @ ''.defaultpixel'',
           ''layers/'' @ LayerName li @ ''.icc'']
      | OtherValue \<Rightarrow> [])"

text \<open>A layer file name that is a single path element, as \<^verbatim>\<open>layer<i+2>\<close> is.\<close>

definition plain_name :: "LayerInfo \<Rightarrow> bool" where
  "plain_name li \<longleftrightarrow>
     Layer li = OtherValue \<or> (LayerName li \<noteq> [] \<and> CHR ''/'' \<notin> set (LayerName li))"

text \<open>
  Two notions of the proofs about the archive: a step \<open>adds\<close> a list of names when
  every run of it that returns without error appends members of exactly these names;
  \<open>after_Create\<close> is what \<^verbatim>\<open>Save\<close> does once the output file is open.
\<close>

definition adds :: "'a io \<Rightarrow> string list \<Rightarrow> bool" where
  "adds m names \<longleftrightarrow>
     (\<forall>w u w'. m w = (Inr u, w') \<longrightarrow> member_names w' = member_names w @ names)"

definition after_Create :: "env \<Rightarrow> KritaDocument \<Rightarrow> unit io" where
  "after_Create env doc =
     (let layerInfos = layer_infos env (Layers doc) in
       (thenIO (writeZipFile ''mimetype'' (bytes_of ''application/x-krita''))
       (thenIO (writeZipFile ''documentinfo.xml'' (bytes_of (createDocumentInfo env)))
       (thenIO (writeZipFile ''maindoc.xml'' (bytes_of (createMainDoc env doc layerInfos)))
       (thenIO (processLayers env doc layerInfos)
       (thenIO (writeZipFile (filepath_Join [TempDir doc, ''animation'', ''index.xml''])
                  (bytes_of createAnimationMetadata))
       (bindIO (ReadFile ''layer3.icc'') (\<lambda>iccData.
        thenIO (writeZipFile (filepath_Join [TempDir doc, ''annotations'', ''icc'']) iccData)
       (thenIO (createPreview env doc)
       (let hasStyle = list_ex (\<lambda>li. styled li \<noteq> None) layerInfos
        in thenIO
             (if hasStyle then
                (case CreateLayerStylesASL layerInfos of
                   Inl err \<Rightarrow> failIO err
                 | Inr aslBytes \<Rightarrow>
                     writeZipFile
                       (filepath_Join [TempDir doc, ''annotations'', ''layerstyles.asl''])
                       aslBytes)
              else returnIO ())
             (thenIO (RemoveAll (TempDir doc)) (returnIO ()))))))))))))"

text \<open>
  The preview source in the words of the specification: "pick the last PaintLayer's
  image if one exists, else synthesize a fully transparent canvas-sized image".
\<close>

definition last_paint_image :: "Layer list \<Rightarrow> image option" where
  "last_paint_image layers =
     (case filter (\<lambda>l. case l of PaintLayerPtr pl \<Rightarrow> True | _ \<Rightarrow> False) layers of
        [] \<Rightarrow> None
      | ls \<Rightarrow> (case last ls of
                 PaintLayerPtr pl \<Rightarrow> (case Image pl of AnImage img \<Rightarrow> Some img | _ \<Rightarrow> None)
               | _ \<Rightarrow> None))"

definition spec_preview_source :: "KritaDocument \<Rightarrow> image" where
  "spec_preview_source doc =
     (case last_paint_image (Layers doc) of
        Some img \<Rightarrow> img
      | None \<Rightarrow> NewRGBA (image_Rect 0 0 (Width doc) (Height doc)))"

section \<open>Example inputs\<close>

text \<open>
  Concrete layers used where a theorem is evaluated at an input. The \<^verbatim>\<open>float64\<close>
  values are the bit patterns of 100.0, 3.0 and 255.0.
\<close>

definition example_style :: LayerStyle where
  "example_style =
     \<lparr>Enabled = True, Scale = 0x4059000000000000,
      LayerStyleUUID_style = ''0b8a6f6e-1c1d-4c55-9a53-2f1f6f0a9f11'',
      StrokeEnabled = True, StrokeStyle = ''OutF'', StrokeBlendMode = ''Nrml'',
      StrokeOpacity = 0x4059000000000000, StrokeSize = 0x4008000000000000,
      StrokeColor = (0x406FE00000000000, 0x406FE00000000000, 0x406FE00000000000)\<rparr>"

definition example_shape :: ShapeLayer where
  "example_shape =
     \<lparr>ContentType = ''shape'', Name = ''Shape Layer'', Visible = True, Opacity = 255,
      X = 0, Y = 0, LayerStyle = None,
      UUID = ''{6a1e1f0c-58a5-4a4e-8a39-0d4c1d0f3b01}'',
      LayerStyleUUID = ''5f0c2d3a-7b1e-4a6e-9c2d-1e2f3a4b5c6d''\<rparr>"

definition example_text :: ShapeLayer where
  "example_text =
     \<lparr>ContentType = ''text'', Name = ''Text Layer'', Visible = True, Opacity = 255,
      X = 0x4024000000000000, Y = 0x4024000000000000, LayerStyle = None,
      UUID = ''{0f4d2a8e-3c55-4d0b-b0a1-7e1c2d3e4f50}'',
      LayerStyleUUID = ''a1b2c3d4-e5f6-4711-8899-aabbccddeeff''\<rparr>"

definition styled_shape :: ShapeLayer where
  "styled_shape = example_shape\<lparr>LayerStyle := Some example_style\<rparr>"

text \<open>A styled layer whose name is \<open>2^31\<close> bytes long.\<close>

definition long_name_shape :: ShapeLayer where
  "long_name_shape = styled_shape\<lparr>Name := replicate 2147483648 CHR ''a''\<rparr>"

text \<open>Images with all pixels zero, and a compressor that always fails.\<close>

definition blank_image :: "int \<Rightarrow> int \<Rightarrow> image" where
  "blank_image w h = NewRGBA (image_Rect 0 0 w h)"

definition failing_compressor :: compressor where
  "failing_compressor plane_data = Inl (ErrExternal ''lzf: compression failed'')"

definition storing_compressor :: compressor where
  "storing_compressor plane_data = Inr plane_data"

text \<open>Two XML nodes: one with two attributes, one a small tree with a single attribute.\<close>

definition two_attr_node :: XMLNode where
  "two_attr_node = XMLNode ''layer'' [''name'' \<mapsto> ''a'', ''uuid'' \<mapsto> ''b''] [] []"

definition docinfo_node :: XMLNode where
  "docinfo_node =
     XMLNode ''document-info'' [''xmlns'' \<mapsto> ''http://www.calligra.org/DTD/document-info'']
       [XMLNode ''about'' Map.empty [XMLNode ''title'' Map.empty [] []] []] []"

text \<open>
  A document as \<^verbatim>\<open>cmd/main.go\<close> builds it: a text layer, a shape layer and a paint
  layer, none styled; an environment; and two initial states, with and without the
  colour profile \<^verbatim>\<open>layer3.icc\<close> in the working directory.
\<close>

definition example_paint :: PaintLayer where
  "example_paint =
     \<lparr>Image = AnImage (blank_image 1 1), ImagePath = ''dummy.png'', Name_p = ''Image Layer'',
      Visible_p = True, Opacity_p = 255, X_p = 0, Y_p = 0\<rparr>"

definition example_doc :: KritaDocument where
  "example_doc =
     \<lparr>Width = 64, Height = 64,
      Layers = [ShapeLayerPtr example_text, ShapeLayerPtr example_shape,
                PaintLayerPtr example_paint],
      TempDir = ''krita_temp''\<rparr>"

definition example_env :: env where
  "example_env =
     \<lparr>lzf_Compress = storing_compressor,
      uuid_New = (\<lambda>i. ''9d2f6c1e-0a4b-4c3d-8e5f-00000000000'' @ itoa (int i)),
      ApproxBiLinear_Scale = (\<lambda>thumb src. thumb),
      png_Encode = (\<lambda>img. Inr (bytes_of ''PNG'')),
      createDocumentInfo = ''<document-info/>'',
      createMainDoc = (\<lambda>doc layerInfos. ''<DOC/>'')\<rparr>"

text \<open>
  The same layers with the paint layer first: a document whose last layer is not its
  last paint layer. The paint layer's image is a single opaque grey pixel.
\<close>

definition grey_pixel_image :: image where
  "grey_pixel_image = \<lparr>Bounds = image_Rect 0 0 1 1, Pix = (\<lambda>x y. RGBA 200 200 200 255)\<rparr>"

definition paint_first_doc :: KritaDocument where
  "paint_first_doc =
     \<lparr>Width = 64, Height = 64,
      Layers = [PaintLayerPtr (example_paint\<lparr>Image := AnImage grey_pixel_image\<rparr>),
                ShapeLayerPtr example_shape],
      TempDir = ''krita_temp''\<rparr>"

definition world_with_profile :: world where
  "world_with_profile = \<lparr>fs = [''layer3.icc'' \<mapsto> File [0x49, 0x43, 0x43]], archive = []\<rparr>"

definition world_without_profile :: world where
  "world_without_profile = \<lparr>fs = Map.empty, archive = []\<rparr>"

definition info_of :: "Layer \<Rightarrow> LayerInfo" where
  "info_of l = \<lparr>Layer = l, UUID_info = ''{00000000-0000-4000-8000-000000000000}'',
                LayerName = ''layer2''\<rparr>"

section \<open>Lemmas on the style block encoder\<close>


lemma length_be_u32 [simp]: "length (be_u32 v) = 4"
  by (simp add: be_u32_def)

lemma length_be_u64 [simp]: "length (be_u64 v) = 8"
  by (simp add: be_u64_def)

lemma length_bytes_of [simp]: "length (bytes_of s) = length s"
  by (simp add: bytes_of_def)

lemma Uint32_be_u32: "Uint32 (be_u32 v) = v"
proof (rule bit_word_eqI)
  fix n assume "n < LENGTH(32)"
  then have n: "n < 32" by simp
  have "bit (Uint32 (be_u32 v)) n \<longleftrightarrow>
        (24 \<le> n \<and> n - 24 < 32 \<and> n - 24 < 8 \<and> bit v (24 + (n - 24))) \<or>
        (16 \<le> n \<and> n - 16 < 32 \<and> n - 16 < 8 \<and> bit v (16 + (n - 16))) \<or>
        (8 \<le> n \<and> n - 8 < 32 \<and> n - 8 < 8 \<and> bit v (8 + (n - 8))) \<or>
        (n < 8 \<and> bit v n)"
    using n
    by (simp add: Uint32_def be_u32_def bit_or_iff bit_push_bit_iff bit_ucast_iff bit_drop_bit_eq)
  also have "\<dots> \<longleftrightarrow> bit v n"
    using n by (cases "n < 8"; cases "n < 16"; cases "n < 24") auto
  finally show "bit (Uint32 (be_u32 v)) n = bit v n" .
qed

lemma take4_be_u32 [simp]: "take 4 (be_u32 v @ rest) = be_u32 v"
  by simp

lemma be_u32_zero: "be_u32 0 = [0, 0, 0, 0]"
  by (simp add: be_u32_def)

lemma length_encode_embedded [simp]: "length (encode_embedded s) = 2 * length s"
  by (induction s) simp_all

lemma encode_embedded_concat: "encode_embedded s = concat (map (\<lambda>c. [of_char c, 0]) s)"
  by (induction s) simp_all

lemma length_encode_string_embedded: "length (encode_string s ''embedded'') = 2 * length s + 2"
  by (simp add: encode_string_def)

lemma padding_embedded: "(4 - (2 * n + 2) mod 4) mod 4 = (if even n then 2 else (0::nat))"
proof (cases "even n")
  case True
  then obtain k where "n = 2 * k" by (auto elim: evenE)
  then have "2 * n + 2 = 2 + 4 * k" by simp
  moreover have "(2 + 4 * k) mod 4 = (2::nat)"
    using mod_mult_self2[of 2 4 k] by simp
  ultimately have "(2 * n + 2) mod 4 = 2" by simp
  with True show ?thesis by simp
next
  case False
  then obtain k where "n = 2 * k + 1" by (auto elim: oddE)
  then have "2 * n + 2 = 4 * (k + 1)" by simp
  then have "(2 * n + 2) mod 4 = 0" by (metis mod_mult_self1_is_0)
  with False show ?thesis by simp
qed

lemma padding_embedded': "(4 - Suc (Suc (2 * n)) mod 4) mod 4 = (if even n then 2 else (0::nat))"
  using padding_embedded[of n] by simp

lemma writeASLString_embedded:
  "writeASLString buf s ''embedded'' =
     buf @ be_u32 (word_of_nat (2 * length s + 2)) @ encode_embedded s @ [0, 0]
         @ replicate (if even (length s) then 2 else 0) 0"
  by (simp add: writeASLString_def Let_def encode_string_def padding_embedded')




lemma writeASLString_append:
  "writeASLString (a @ b) s t = a @ writeASLString b s t"
  by (simp add: writeASLString_def Let_def)

lemma foldl_append_pref:
  "foldl (\<lambda>asl (ch, c). asl @ f ch c) (a @ b) xs = a @ foldl (\<lambda>asl (ch, c). asl @ f ch c) b xs"
  by (induction xs arbitrary: b) (auto)

lemma write_stroke_append: "write_stroke (a @ b) ls = a @ write_stroke b ls"
proof -
  obtain r g bl where c: "StrokeColor ls = (r, g, bl)" by (cases "StrokeColor ls")
  show ?thesis
    unfolding write_stroke_def Let_def c by simp
qed

lemma write_style_body_append: "write_style_body (a @ b) sl ls = a @ write_style_body b sl ls"
  unfolding write_style_body_def Let_def
  by (simp add: writeASLString_append write_stroke_append)

lemma write_style_body_eq: "write_style_body asl sl ls = asl @ write_style_body [] sl ls"
  using write_style_body_append[of asl "[]" sl ls] by simp



lemma PutUint32_patch:
  "PutUint32 (asl @ be_u32 0 @ body) (length asl) v = Some (asl @ be_u32 v @ body)"
proof -
  have "(asl @ [a, b, c, d] @ body)[length asl := p, length asl + 1 := q,
           length asl + 2 := r, length asl + 3 := t] = asl @ [p, q, r, t] @ body"
    for a b c d p q r t :: byte
    by (simp add: list_update_append)
  then show ?thesis
    by (simp add: PutUint32_def be_u32_def)
qed

lemma write_styles_eq:
  "write_styles asl lis = Inr (asl @ concat (map style_record (List.map_filter styled lis)))"
proof (induction lis arbitrary: asl)
  case Nil
  then show ?case by (simp add:)
next
  case (Cons li lis)
  show ?case
  proof (cases "styled li")
    case None
    then show ?thesis by (simp add: Cons.IH)
  next
    case (Some p)
    obtain sl ls where p: "p = (sl, ls)" by (cases p)
    let ?body = "write_style_body [] sl ls"
    have body: "write_style_body (asl @ be_u32 0) sl ls = asl @ be_u32 0 @ ?body"
      using write_style_body_eq[of "asl @ be_u32 0" sl ls] by simp
    have size: "(word_of_int (int (length (asl @ be_u32 0 @ ?body)) - int (length asl) - 4) :: 32 word)
                = word_of_nat (length ?body)"
      by simp
    have "write_styles asl (li # lis) = write_styles (asl @ be_u32 (word_of_nat (length ?body)) @ ?body) lis"
      by (simp only: write_styles.simps Some p option.case prod.case Let_def body size PutUint32_patch)
    then show ?thesis
      using Some p by (simp add: Cons.IH style_record_def)
  qed
qed

lemma count_styles_foldl:
  "foldl (\<lambda>numStyles li. if styled li \<noteq> None then numStyles + 1 else numStyles) n lis
     = n + int (length (filter (\<lambda>li. styled li \<noteq> None) lis))"
  by (induction lis arbitrary: n) auto

lemma count_styles_eq:
  "count_styles lis = int (length (filter (\<lambda>li. styled li \<noteq> None) lis))"
  unfolding count_styles_def count_styles_foldl by simp

lemma length_map_filter_styled:
  "length (List.map_filter styled lis) = length (filter (\<lambda>li. styled li \<noteq> None) lis)"
  by (induction lis) (auto simp: split: option.splits)


lemma unat_u32_of_nat: "n < 2 ^ 32 \<Longrightarrow> unat (word_of_nat n :: 32 word) = n"
  by (simp add: unat_of_nat)

lemma read_records_concat:
  "\<forall>b \<in> set bodies. length b < 2 ^ 32 \<Longrightarrow>
   read_records (length bodies)
     (concat (map (\<lambda>b. be_u32 (word_of_nat (length b)) @ b) bodies)) = Some bodies"
proof (induction bodies)
  case Nil
  then show ?case by simp
next
  case (Cons b bodies)
  then have len: "unat (Uint32 (be_u32 (word_of_nat (length b)))) = length b"
    by (simp add: Uint32_be_u32 unat_u32_of_nat)
  from Cons show ?case
    by (simp add: len Let_def)
qed

lemma CreateLayerStylesASL_eq:
  "CreateLayerStylesASL lis =
     Inr (be_u16 2 @ bytes_of ''8BSL'' @ be_u16 3 @ be_u32 0
          @ be_u32 (word_of_nat (length (filter (\<lambda>li. styled li \<noteq> None) lis)))
          @ concat (map style_record (List.map_filter styled lis)))"
  by (simp add: CreateLayerStylesASL_def Let_def write_styles_eq count_styles_eq)

lemma length_be_u16 [simp]: "length (be_u16 v) = 2"
  by (simp add: be_u16_def)

lemma map_style_record:
  "map style_record ps = map (\<lambda>b. be_u32 (word_of_nat (length b)) @ b)
                             (map (\<lambda>(sl, ls). write_style_body [] sl ls) ps)"
  by (simp add: style_record_def fun_eq_iff split: prod.splits)

lemma length_write_stroke_ge: "length asl \<le> length (write_stroke asl ls)"
  using write_stroke_append[of asl "[]" ls] by simp

lemma length_write_style_body_ge: "2 * length (Name sl) \<le> length (write_style_body [] sl ls)"
proof -
  have "2 * length (Name sl) \<le> length (write_style_body [] sl (ls\<lparr>StrokeEnabled := False\<rparr>))"
    by (simp add: write_style_body_def Let_def writeASLString_embedded)
  moreover have "length (write_style_body [] sl (ls\<lparr>StrokeEnabled := False\<rparr>)) \<le> length (write_style_body [] sl ls)"
    using length_write_stroke_ge
    by (simp add: write_style_body_def Let_def del: length_append append_assoc)
  ultimately show ?thesis by simp
qed

lemma unat_u32_bound: "unat (w :: 32 word) < 4294967296"
  using unsigned_less[of w] by simp

section \<open>Lemmas on the tile codec\<close>


lemma channel_roundtrip:
  "(ucast (drop_bit 8 ((ucast (v::byte) :: 32 word) OR push_bit 8 (ucast v))) :: byte) = v"
proof (rule bit_word_eqI)
  fix n assume "n < LENGTH(8)"
  then have n: "n < 8" by simp
  then show "bit (ucast (drop_bit 8 ((ucast v :: 32 word) OR push_bit 8 (ucast v))) :: byte) n = bit v n"
    by (auto simp add: bit_or_iff bit_push_bit_iff bit_ucast_iff bit_drop_bit_eq
             dest: bit_imp_le_length)
qed

lemma RGBA_method_channels:
  "(case RGBA_method c of (r, g, b, a) \<Rightarrow>
      (ucast (drop_bit 8 b) :: byte, ucast (drop_bit 8 g) :: byte,
       ucast (drop_bit 8 r) :: byte, ucast (drop_bit 8 a) :: byte))
   = (rgba_B c, rgba_G c, rgba_R c, rgba_A c)"
  by (simp only: RGBA_method_def Let_def prod.case channel_roundtrip)

lemma plane_append_eq:
  "plane_append tileImg y (b0, g0, r0, a0) x =
     (b0 @ [rgba_B (At tileImg (int x) (int y))], g0 @ [rgba_G (At tileImg (int x) (int y))],
      r0 @ [rgba_R (At tileImg (int x) (int y))], a0 @ [rgba_A (At tileImg (int x) (int y))])"
proof -
  obtain r g b a where m: "RGBA_method (At tileImg (int x) (int y)) = (r, g, b, a)"
    by (cases "RGBA_method (At tileImg (int x) (int y))") auto
  with RGBA_method_channels[of "At tileImg (int x) (int y)"] show ?thesis
    by (simp add: plane_append_def)
qed

lemma plane_inner_loop:
  "foldl (plane_append tileImg y) (b0, g0, r0, a0) xs
   = (b0 @ map (\<lambda>x. rgba_B (At tileImg (int x) (int y))) xs,
      g0 @ map (\<lambda>x. rgba_G (At tileImg (int x) (int y))) xs,
      r0 @ map (\<lambda>x. rgba_R (At tileImg (int x) (int y))) xs,
      a0 @ map (\<lambda>x. rgba_A (At tileImg (int x) (int y))) xs)"
  by (induction xs arbitrary: b0 g0 r0 a0) (simp_all add: plane_append_eq)

lemma plane_outer_loop:
  "foldl (\<lambda>planes y. foldl (plane_append tileImg y) planes xs) (b0, g0, r0, a0) ys
   = (b0 @ concat (map (\<lambda>y. map (\<lambda>x. rgba_B (At tileImg (int x) (int y))) xs) ys),
      g0 @ concat (map (\<lambda>y. map (\<lambda>x. rgba_G (At tileImg (int x) (int y))) xs) ys),
      r0 @ concat (map (\<lambda>y. map (\<lambda>x. rgba_R (At tileImg (int x) (int y))) xs) ys),
      a0 @ concat (map (\<lambda>y. map (\<lambda>x. rgba_A (At tileImg (int x) (int y))) xs) ys))"
  by (induction ys arbitrary: b0 g0 r0 a0) (simp_all add: plane_inner_loop)

lemma tile_planes_eq:
  "tile_planes tileImg = (plane_of rgba_B tileImg, plane_of rgba_G tileImg,
                          plane_of rgba_R tileImg, plane_of rgba_A tileImg)"
  unfolding tile_planes_def plane_of_def
  using plane_outer_loop[of tileImg "[0..<64]" "[]" "[]" "[]" "[]" "[0..<64]"] by simp

lemma length_concat_const:
  "(\<And>x. x \<in> set xs \<Longrightarrow> length (f x) = k) \<Longrightarrow> length (concat (map f xs)) = length xs * k"
  by (induction xs) auto

lemma length_plane_of: "length (plane_of channel tileImg) = 4096"
  unfolding plane_of_def by (subst length_concat_const[where k=64]) simp_all

lemma planeData_eq:
  "planeData tileImg = plane_of rgba_B tileImg @ plane_of rgba_G tileImg
                       @ plane_of rgba_R tileImg @ plane_of rgba_A tileImg"
  by (simp add: planeData_def tile_planes_eq)

lemma nth_concat_rows:
  assumes "x < k" "y < n"
  shows "concat (map (\<lambda>y. map (f y) [0..<k]) [0..<n]) ! (y * k + x) = f y x"
  using assms
proof (induction n)
  case 0
  then show ?case by simp
next
  case (Suc n)
  have len: "length (concat (map (\<lambda>y. map (f y) [0..<k]) [0..<n])) = n * k"
    by (subst length_concat_const[where k=k]) simp_all
  show ?case
  proof (cases "y < n")
    case True
    then have "y * k + x < n * k"
      using Suc.prems(1)
      by (metis add.commute mult.commute mult_Suc_right nat_add_left_cancel_less Suc_leI mult_le_mono1 order_less_le_trans)
    with True Suc show ?thesis by (simp add: nth_append len)
  next
    case False
    with Suc.prems have "y = n" by simp
    with Suc.prems show ?thesis by (simp add: nth_append len)
  qed
qed

lemma plane_of_nth:
  "x < 64 \<Longrightarrow> y < 64 \<Longrightarrow> plane_of channel tileImg ! (y * 64 + x) = channel (At tileImg (int x) (int y))"
  unfolding plane_of_def
  using nth_concat_rows[of x 64 y 64 "\<lambda>y x. channel (At tileImg (int x) (int y))"] by simp

section \<open>Lemmas on decimal numbers and header lines\<close>


lemma of_char_digit_char: "d < 10 \<Longrightarrow> (of_char (digit_char d) :: nat) = 48 + d"
  by (simp add: digit_char_def)

lemma is_digit_digit_char: "d < 10 \<Longrightarrow> is_digit (digit_char d)"
  by (simp add: is_digit_def of_char_digit_char)

lemma digits_all_digit: "list_all is_digit (digits n)"
proof (induction n rule: digits.induct)
  case (1 n)
  show ?case
  proof (cases "n < 10")
    case True
    then show ?thesis by (subst digits.simps) (simp add: is_digit_digit_char)
  next
    case False
    with 1 show ?thesis by (subst digits.simps) (simp add: is_digit_digit_char)
  qed
qed

lemma digits_nonempty: "digits n \<noteq> []"
  by (subst digits.simps) simp

lemma digits_value: "foldl (\<lambda>a c. 10 * a + (of_char c - 48)) 0 (digits n) = n"
proof (induction n rule: digits.induct)
  case (1 n)
  show ?case
  proof (cases "n < 10")
    case True
    then show ?thesis by (subst digits.simps) (simp add: of_char_digit_char)
  next
    case False
    with 1 show ?thesis by (subst digits.simps) (simp add: of_char_digit_char)
  qed
qed

lemma parse_decimal_digits: "parse_decimal (digits n) = Some n"
  by (simp add: parse_decimal_def digits_nonempty digits_all_digit digits_value)

lemma parse_decimal_itoa: "0 \<le> i \<Longrightarrow> parse_decimal (itoa i) = Some (nat i)"
  by (simp add: itoa_def parse_decimal_digits)

lemma is_digit_not_comma: "is_digit c \<Longrightarrow> c \<noteq> CHR '',''"
  by (auto simp: is_digit_def)

lemma comma_notin_digits: "CHR '','' \<notin> set (digits n)"
  using digits_all_digit[of n] by (auto simp: list_all_iff dest: is_digit_not_comma)

lemma comma_notin_itoa: "CHR '','' \<notin> set (itoa i)"
  by (simp add: itoa_def comma_notin_digits)

lemma split_on_no_delim: "d \<notin> set a \<Longrightarrow> split_on d a = [a]"
  by (induction a) auto

lemma split_on_append: "d \<notin> set a \<Longrightarrow> split_on d (a @ d # rest) = a # split_on d rest"
  by (induction a) auto

lemma string_of_bytes_of: "string_of (bytes_of s) = s"
proof -
  have "char_of (unat (of_char c :: byte)) = c" for c
  proof -
    have "(of_char c :: byte) = of_nat (of_char c)" by (rule of_nat_of_char [symmetric])
    then have "unat (of_char c :: byte) = (of_char c :: nat) mod 256"
      by (simp only: unat_of_nat) simp
    then show ?thesis by simp
  qed
  then show ?thesis
    by (simp add: string_of_def bytes_of_def comp_def)
qed

lemma parse_tile_header_line:
  assumes "0 \<le> l" "0 \<le> t"
  shows "parse_tile_header (itoa l @ '','' @ itoa t @ '',LZF,'' @ itoa (int n) @ [CHR 0x0A])
           = Some (nat l, nat t, ''LZF'', n)"
proof -
  let ?line = "itoa l @ '','' @ itoa t @ '',LZF,'' @ itoa (int n) @ [CHR 0x0A]"
  have bl: "butlast ?line = itoa l @ CHR '','' # (itoa t @ CHR '','' # (''LZF'' @ CHR '','' # itoa (int n)))"
    by (simp add: butlast_append)
  have sp: "split_on CHR '','' (butlast ?line) = [itoa l, itoa t, ''LZF'', itoa (int n)]"
    unfolding bl
    by (simp only: split_on_append[OF comma_notin_itoa] split_on_no_delim[OF comma_notin_itoa])
       (simp add: split_on_no_delim comma_notin_itoa)
  have "?line \<noteq> []" "last ?line = CHR 0x0A" by simp_all
  then show ?thesis
    unfolding parse_tile_header_def sp using assms
    by (simp add: parse_decimal_itoa)
qed

section \<open>Lemmas on the tile grid\<close>


lemma bitlen_le_iff: "bitlen n \<le> k \<longleftrightarrow> n < 2 ^ k"
proof (induction n arbitrary: k rule: bitlen.induct)
  case (1 n)
  show ?case
  proof (cases "n = 0")
    case True
    then show ?thesis by (subst bitlen.simps) simp
  next
    case False
    show ?thesis
    proof (cases k)
      case 0
      with False show ?thesis by (subst bitlen.simps) simp
    next
      case (Suc k')
      have "bitlen n \<le> Suc k' \<longleftrightarrow> bitlen (n div 2) \<le> k'"
        using False by (subst bitlen.simps) simp
      also have "\<dots> \<longleftrightarrow> n div 2 < 2 ^ k'"
        using 1[OF False] by simp
      also have "\<dots> \<longleftrightarrow> n < 2 ^ Suc k'"
        by (simp add: div_less_iff_less_mult mult.commute)
      finally show ?thesis using Suc by simp
    qed
  qed
qed

lemma float64_round_small: "n \<le> 2 ^ 53 \<Longrightarrow> float64_round n = n"
proof (cases "n < 2 ^ 53")
  case True
  then show ?thesis by (simp add: float64_round_def bitlen_le_iff)
next
  case False
  assume "n \<le> 2 ^ 53"
  with False have n: "n = 2 ^ 53" by simp
  have "bitlen n \<le> 54" "\<not> bitlen n \<le> 53"
    unfolding bitlen_le_iff n by simp_all
  then have b: "bitlen n = 54" by simp
  show ?thesis
    unfolding float64_round_def b unfolding n by (simp add: Let_def)
qed

lemma float64_of_int_small: "0 \<le> i \<Longrightarrow> i \<le> 2 ^ 53 \<Longrightarrow> float64_of_int i = i"
proof -
  assume a: "0 \<le> i" "i \<le> 2 ^ 53"
  then have "nat i \<le> 2 ^ 53"
    by (metis nat_le_iff of_nat_numeral of_nat_power)
  then show ?thesis using a by (simp add: float64_of_int_def float64_round_small)
qed

lemma ceil_div_64_small:
  "0 \<le> w \<Longrightarrow> w \<le> 2 ^ 53 \<Longrightarrow> ceil_div_64 w = \<lceil>real_of_int w / 64\<rceil>"
proof -
  assume a: "0 \<le> w" "w \<le> 2 ^ 53"
  have "\<lceil>real_of_int w / real_of_int 64\<rceil> = - (- w div 64)"
    by (rule ceiling_divide_eq_div)
  then show ?thesis using a by (simp add: ceil_div_64_def float64_of_int_small)
qed

lemma length_tile_grid:
  "length (concat (map (\<lambda>ty. map (f ty) [0..nx - 1]) [0..ny - 1])) = nat nx * nat ny"
  by (subst length_concat_const[where k="nat nx"]) simp_all

lemma length_tile_entries:
  "length (tile_entries Compress img)
     = nat (ceil_div_64 (Dx (Bounds img))) * nat (ceil_div_64 (Dy (Bounds img)))"
  by (simp add: tile_entries_def Let_def length_tile_grid)

lemma upto_map_int: "[0..int n - 1] = map int [0..<n]"
proof (induction n)
  case 0
  then show ?case by simp
next
  case (Suc n)
  have "[0..int (Suc n) - 1] = [0..int n - 1] @ [int n]"
    using upto_rec2[of 0 "int n"] by simp
  with Suc show ?case by simp
qed

lemma upto_nat: "0 \<le> n \<Longrightarrow> [0..n - 1] = map int [0..<nat n]"
  using upto_map_int[of "nat n"] by simp


lemma upto_nat': "[0..n - 1] = map int [0..<nat n]"
proof (cases "0 \<le> n")
  case True
  then show ?thesis by (rule upto_nat)
next
  case False
  then show ?thesis by simp
qed

lemma foldl_append_records:
  "foldl (\<lambda>outBuf entry. outBuf @ f entry) buf es = buf @ concat (map f es)"
  by (induction es arbitrary: buf) simp_all

lemma bytes_of_append: "bytes_of (a @ b) = bytes_of a @ bytes_of b"
  by (simp add: bytes_of_def)

lemma krita_layer_bytes_eq:
  "krita_layer_bytes Compress img =
     layer_file_header (length (tile_entries Compress img))
     @ concat (map (\<lambda>e. Header e @ Data e) (tile_entries Compress img))"
  by (simp add: krita_layer_bytes_def layer_file_header_def Let_def bytes_of_def
        foldl_append_records)

lemma tile_record_Data:
  "Data (tile_record Compress l t pd) = 0x01 # (case Compress pd of Inl err \<Rightarrow> [] | Inr c \<Rightarrow> c)"
  by (simp add: tile_record_def Let_def)

lemma tile_record_Header:
  "string_of (Header (tile_record Compress l t pd)) =
     itoa l @ '','' @ itoa t @ '',LZF,'' @ itoa (int (length (Data (tile_record Compress l t pd))))
     @ [CHR 0x0A]"
  by (simp add: tile_record_def Let_def string_of_bytes_of)

lemma tile_record_parse:
  "0 \<le> l \<Longrightarrow> 0 \<le> t \<Longrightarrow>
   parse_tile_header (string_of (Header (tile_record Compress l t pd)))
     = Some (nat l, nat t, ''LZF'', length (Data (tile_record Compress l t pd)))"
  unfolding tile_record_Header by (rule parse_tile_header_line)

lemma tile_entries_grid:
  "tile_entries Compress img =
     concat (map (\<lambda>ty. map (\<lambda>tx. make_tile Compress img (Dx (Bounds img)) (Dy (Bounds img))
                                    (int tx) (int ty))
                             [0..<nat (ceil_div_64 (Dx (Bounds img)))])
                 [0..<nat (ceil_div_64 (Dy (Bounds img)))])"
  by (simp add: tile_entries_def Let_def upto_nat' comp_def)

lemma tile_entries_mem:
  assumes "e \<in> set (tile_entries Compress img)"
  obtains tx ty where "e = make_tile Compress img (Dx (Bounds img)) (Dy (Bounds img)) (int tx) (int ty)"
  using assms unfolding tile_entries_grid by auto

lemma header_origin_make_tile:
  "header_origin (make_tile Compress img w h (int tx) (int ty)) = Some (64 * tx, 64 * ty)"
  by (simp add: header_origin_def make_tile_def tile_record_parse nat_mult_distrib mult.commute)

lemma map_header_origin:
  "map header_origin (tile_entries Compress img)
     = map Some (row_major_origins (nat (ceil_div_64 (Dx (Bounds img))))
                                   (nat (ceil_div_64 (Dy (Bounds img)))))"
  by (simp add: tile_entries_grid row_major_origins_def map_concat comp_def header_origin_make_tile)

lemma ceiling_tiles_cover:
  assumes "tx < nat \<lceil>real_of_int w / 64\<rceil>"
  shows "int (64 * tx) < w"
proof -
  have "int tx < \<lceil>real_of_int w / 64\<rceil>" using assms by linarith
  then have "real_of_int (int tx) \<le> real_of_int (\<lceil>real_of_int w / 64\<rceil>) - 1" by linarith
  also have "\<dots> < real_of_int w / 64" by linarith
  finally have "64 * real_of_int (int tx) < real_of_int w" by simp
  then have "real_of_int (64 * int tx) < real_of_int w" by simp
  then have "64 * int tx < w" by (simp only: of_int_less_iff)
  then show ?thesis by simp
qed

lemma row_major_origins_mem:
  "(l, t) \<in> set (row_major_origins nx ny) \<longleftrightarrow> (\<exists>tx < nx. \<exists>ty < ny. l = 64 * tx \<and> t = 64 * ty)"
  by (fastforce simp: row_major_origins_def)

lemma ceiling_div_64: "\<lceil>real_of_int w / 64\<rceil> = - (- w div 64)"
  using ceiling_divide_eq_div[of w 64] by simp

lemma Bounds_blank_image: "0 \<le> w \<Longrightarrow> 0 \<le> h \<Longrightarrow> Bounds (blank_image w h) = \<lparr>MinX = 0, MinY = 0, MaxX = w, MaxY = h\<rparr>"
  by (simp add: blank_image_def NewRGBA_def image_Rect_def)

lemma float64_round_above_2_53: "float64_round 9007199254740993 = 9007199254740992"
proof -
  have "bitlen 9007199254740993 \<le> 54" "\<not> bitlen 9007199254740993 \<le> 53"
    unfolding bitlen_le_iff by simp_all
  then have b: "bitlen 9007199254740993 = 54" by simp
  show ?thesis
    unfolding float64_round_def b by (simp add: Let_def)
qed


lemma itoa_0: "itoa 0 = ''0''"
  by code_simp

lemma itoa_1: "itoa 1 = ''1''"
  by code_simp

lemma itoa_64: "itoa 64 = ''64''"
  by code_simp

lemma tile_record_failing:
  "tile_record failing_compressor l t pd
     = \<lparr>Header = bytes_of (itoa l @ '','' @ itoa t @ '',LZF,1'' @ [CHR 0x0A]), Data = [0x01]\<rparr>"
  by (simp add: tile_record_def failing_compressor_def Let_def itoa_1)

lemma tile_entries_failing_1x1:
  "tile_entries failing_compressor (blank_image 1 1)
     = [\<lparr>Header = bytes_of (''0,0,LZF,1'' @ [CHR 0x0A]), Data = [0x01]\<rparr>]"
proof -
  have b: "Dx (Bounds (blank_image 1 1)) = 1" "Dy (Bounds (blank_image 1 1)) = 1"
    by (simp_all add: Bounds_blank_image Dx_def Dy_def)
  have n: "ceil_div_64 1 = 1"
    by (simp add: ceil_div_64_def float64_of_int_small)
  show ?thesis
    unfolding tile_entries_grid b n
    by (simp add: make_tile_def tile_record_failing itoa_0)
qed


section \<open>Lemmas on the XML tree\<close>


lemma range_order_keys: "range_order m kvs \<Longrightarrow> (k, v) \<in> set kvs \<Longrightarrow> m k = Some v"
  by (auto simp: range_order_def)

lemma range_order_unique:
  assumes one: "\<forall>k k'. m k \<noteq> None \<longrightarrow> m k' \<noteq> None \<longrightarrow> k = k'"
      and r1: "range_order m kvs1" and r2: "range_order m kvs2"
  shows "kvs1 = kvs2"
proof -
  have short: "length kvs \<le> 1" if r: "range_order m kvs" for kvs
  proof (cases kvs)
    case Nil
    then show ?thesis by simp
  next
    case (Cons a rest)
    obtain k v where a: "a = (k, v)" by (cases a)
    have "rest = []"
    proof (cases rest)
      case Nil
      then show ?thesis .
    next
      case (Cons b rest')
      obtain k' v' where b: "b = (k', v')" by (cases b)
      have "m k = Some v" "m k' = Some v'"
        using r Cons \<open>kvs = a # rest\<close> a b by (auto intro: range_order_keys)
      with one have "k = k'" by auto
      moreover have "k \<noteq> k'"
        using r Cons \<open>kvs = a # rest\<close> a b by (auto simp: range_order_def)
      ultimately show ?thesis by simp
    qed
    with Cons show ?thesis by simp
  qed
  have m1: "map_of kvs1 = m" and m2: "map_of kvs2 = m"
    using r1 r2 by (auto simp: range_order_def)
  show ?thesis
  proof (cases kvs1)
    case Nil
    with m1 have "m = Map.empty" by simp
    with m2 have "kvs2 = []" by (cases kvs2) (auto simp: fun_eq_iff split: if_splits)
    with Nil show ?thesis by simp
  next
    case (Cons a rest)
    with short[OF r1] have k1: "kvs1 = [a]" by simp
    obtain k v where a: "a = (k, v)" by (cases a)
    have mk: "m k = Some v" using m1 k1 a by auto
    show ?thesis
    proof (cases kvs2)
      case Nil
      with m2 have "m k = None" by auto
      with mk show ?thesis by simp
    next
      case (Cons b rest')
      with short[OF r2] have k2: "kvs2 = [b]" by simp
      obtain k' v' where b: "b = (k', v')" by (cases b)
      have mk': "m k' = Some v'" using m2 k2 b by auto
      with mk one have "k = k'" by auto
      with mk mk' have "v = v'" by simp
      with \<open>k = k'\<close> k1 k2 a b show ?thesis by simp
    qed
  qed
qed

lemma list_all2_unique:
  assumes "list_all2 (\<lambda>c s. \<forall>s'. Q c \<longrightarrow> R c s' \<longrightarrow> s = s') cs xs"
      and "list_all2 R cs ys" and "\<forall>c \<in> set cs. Q c"
  shows "xs = ys"
  using assms
proof (induction cs arbitrary: xs ys)
  case Nil
  then show ?case by simp
next
  case (Cons c cs)
  then show ?case
    by (auto simp: list_all2_Cons1)
qed

lemma at_most_one_attr_iff:
  "at_most_one_attr n \<longleftrightarrow>
     (\<forall>k k'. Attrs n k \<noteq> None \<longrightarrow> Attrs n k' \<noteq> None \<longrightarrow> k = k')
     \<and> (\<forall>child \<in> set (Children n). at_most_one_attr child)"
  by (cases n) simp

lemma ToString_unique:
  assumes "ToString n indent s1" and "ToString n indent s2" and "at_most_one_attr n"
  shows "s1 = s2"
  using assms
proof (induction n indent s1 arbitrary: s2 rule: ToString.induct)
  case (ToString_node n kvs indent rendered)
  from ToString_node.prems(1) obtain kvs' rendered' where
    r': "range_order (Attrs n) kvs'"
    and c': "list_all2 (\<lambda>child s. ToString child (indent @ ''  '') s) (Children n) rendered'"
    and s2: "s2 = element_text (Tag n)
          (foldl (\<lambda>attrs kv. attrs @ attr_text kv) [] kvs')
          (foldl (\<lambda>inner s. inner @ [CHR 0x0A] @ indent @ ''  '' @ s) (Text n) rendered')"
    by (auto elim: ToString.cases)
  have one: "\<forall>k k'. Attrs n k \<noteq> None \<longrightarrow> Attrs n k' \<noteq> None \<longrightarrow> k = k'"
    and ch: "\<forall>child \<in> set (Children n). at_most_one_attr child"
    using ToString_node.prems(2) at_most_one_attr_iff[of n] by blast+
  have k: "kvs = kvs'"
    using one ToString_node.hyps(1) r' by (rule range_order_unique)
  have "list_all2 (\<lambda>c s. \<forall>s'. at_most_one_attr c \<longrightarrow> ToString c (indent @ ''  '') s' \<longrightarrow> s = s')
          (Children n) rendered"
    using ToString_node.IH by (auto elim!: list_all2_mono)
  then have "rendered = rendered'"
    using c' ch by (rule list_all2_unique)
  with k s2 show ?case by simp
qed

lemma range_order_exists:
  assumes one: "\<forall>k k'. m k \<noteq> None \<longrightarrow> m k' \<noteq> None \<longrightarrow> k = k'"
  shows "\<exists>kvs. range_order m kvs"
proof (cases "\<exists>k v. m k = Some v")
  case False
  then have "m k = None" for k by (cases "m k") auto
  then have "range_order m []" by (simp add: range_order_def fun_eq_iff)
  then show ?thesis by blast
next
  case True
  then obtain k v where kv: "m k = Some v" by blast
  have "map_of [(k, v)] k' = m k'" for k'
  proof (cases "m k'")
    case None
    with kv have "k' \<noteq> k" by auto
    with None show ?thesis by simp
  next
    case (Some v')
    with kv one have "k' = k" by (metis option.distinct(1))
    with kv show ?thesis by simp
  qed
  then have "range_order m [(k, v)]" by (simp add: range_order_def fun_eq_iff)
  then show ?thesis by blast
qed

lemma list_all2_exists:
  "(\<forall>c \<in> set cs. \<exists>s. P c s) \<Longrightarrow> \<exists>ss. list_all2 P cs ss"
proof (induction cs)
  case Nil
  then show ?case by simp
next
  case (Cons c cs)
  then obtain s ss where "P c s" "list_all2 P cs ss" by auto
  then have "list_all2 P (c # cs) (s # ss)" by simp
  then show ?case by blast
qed

lemma ToString_exists:
  "at_most_one_attr n \<Longrightarrow> \<exists>s. ToString n indent s"
proof (induction n arbitrary: indent)
  case (XMLNode tg m cs tx)
  from XMLNode.prems have one: "\<forall>k k'. m k \<noteq> None \<longrightarrow> m k' \<noteq> None \<longrightarrow> k = k'"
    and ch: "\<forall>child \<in> set cs. at_most_one_attr child"
    by simp_all
  from range_order_exists[OF one] obtain kvs where kvs: "range_order m kvs"
    by blast
  have "\<forall>c \<in> set cs. \<exists>s. ToString c (indent @ ''  '') s"
    using XMLNode.IH ch by blast
  then obtain rendered where
    r: "list_all2 (\<lambda>child s. ToString child (indent @ ''  '') s) cs rendered"
    using list_all2_exists[of cs "\<lambda>child s. ToString child (indent @ ''  '') s"] by blast
  have "ToString (XMLNode tg m cs tx) indent
       (element_text (Tag (XMLNode tg m cs tx))
          (foldl (\<lambda>attrs kv. attrs @ attr_text kv) [] kvs)
          (foldl (\<lambda>inner s. inner @ [CHR 0x0A] @ indent @ ''  '' @ s) (Text (XMLNode tg m cs tx)) rendered))"
    by (rule ToString_node) (use kvs r in simp_all)
  then show ?case by blast
qed

lemma ToString_leaf:
  "range_order (Attrs n) kvs \<Longrightarrow> Children n = [] \<Longrightarrow>
   ToString n indent (element_text (Tag n) (foldl (\<lambda>attrs kv. attrs @ attr_text kv) [] kvs) (Text n))"
  using ToString_node[of n kvs indent "[]"] by simp

lemma docinfo_rendering:
  "ToString docinfo_node []
     (''<document-info xmlns='' @ [CHR 0x22] @ ''http://www.calligra.org/DTD/document-info''
      @ [CHR 0x22] @ ''>'' @ [CHR 0x0A] @ ''  <about>'' @ [CHR 0x0A] @ ''    <title/></about>''
      @ ''</document-info>'')"
proof -
  have t: "ToString (XMLNode ''title'' Map.empty [] []) ''    '' ''<title/>''"
    using ToString_leaf[of "XMLNode ''title'' Map.empty [] []" "[]" "''    ''"]
    by (simp add: range_order_def element_text_def)
  have a: "ToString (XMLNode ''about'' Map.empty [XMLNode ''title'' Map.empty [] []] []) ''  ''
             (''<about>'' @ [CHR 0x0A] @ ''    <title/></about>'')"
    using ToString_node[of "XMLNode ''about'' Map.empty [XMLNode ''title'' Map.empty [] []] []"
                           "[]" "''  ''" "[''<title/>'']"] t
    by (simp add: range_order_def element_text_def)
  have r: "range_order (Attrs docinfo_node) [(''xmlns'', ''http://www.calligra.org/DTD/document-info'')]"
    by (auto simp: range_order_def docinfo_node_def)
  show ?thesis
    using ToString_node[OF r, of "[]" "[''<about>'' @ [CHR 0x0A] @ ''    <title/></about>'']"] a
    by (simp add: docinfo_node_def element_text_def attr_text_def)
qed


section \<open>Lemmas on the packager\<close>


lemma bindIO_Inr:
  "bindIO m f w = (Inr x, w'') \<longleftrightarrow> (\<exists>y w'. m w = (Inr y, w') \<and> f y w' = (Inr x, w''))"
  by (auto simp: bindIO_def split: prod.splits sum.splits)

lemma thenIO_Inr:
  "thenIO m k w = (Inr x, w'') \<longleftrightarrow> (\<exists>w'. m w = (Inr (), w') \<and> k w' = (Inr x, w''))"
  by (simp add: thenIO_def bindIO_Inr)

lemma returnIO_Inr: "returnIO x w = (Inr y, w') \<longleftrightarrow> y = x \<and> w' = w"
  by (auto simp: returnIO_def)

lemma failIO_Inr: "failIO e w \<noteq> (Inr y, w')"
  by (simp add: failIO_def)

lemma MkdirAll_archive: "MkdirAll p w = (Inr u, w') \<Longrightarrow> archive w' = archive w"
  by (auto simp: MkdirAll_def split: if_splits)

lemma WriteFile_archive: "WriteFile p c w = (Inr u, w') \<Longrightarrow> archive w' = archive w"
  by (auto simp: WriteFile_def split: if_splits)

lemma ReadFile_world: "ReadFile p w = (Inr c, w') \<Longrightarrow> w' = w"
  by (auto simp: ReadFile_def split: option.splits fs_node.splits)

lemma Create_archive: "Create p w = (Inr u, w') \<Longrightarrow> archive w' = []"
  by (auto simp: Create_def split: if_splits)

lemma writeZipFile_Inr:
  "writeZipFile name c w = (Inr u, w') \<longleftrightarrow> w' = w\<lparr>archive := archive w @ [(name, c)]\<rparr>"
  by (auto simp: writeZipFile_def)

lemma RemoveAll_archive: "RemoveAll p w = (Inr u, w') \<Longrightarrow> archive w' = archive w"
  by (auto simp: RemoveAll_def)

lemma NewRGBA_io_world: "NewRGBA_io r w = (Inr img, w') \<Longrightarrow> w' = w"
  by (auto simp: NewRGBA_io_def returnIO_def failIO_def split: if_splits)

lemma SaveKritaLayer_archive:
  "SaveKritaLayer C img p w = (Inr u, w') \<Longrightarrow> archive w' = archive w"
  by (simp add: SaveKritaLayer_def WriteFile_archive)

lemma addShapeLayerToZip_names:
  assumes "addShapeLayerToZip doc layer layerName w = (Inr u, w')"
  shows "member_names w' = member_names w
           @ [filepath_Join [''layers'', layerName @ ''.shapelayer'', ''content.svg'']]"
  using assms
  by (auto simp: addShapeLayerToZip_def Let_def thenIO_Inr bindIO_Inr writeZipFile_Inr member_names_def
           dest!: MkdirAll_archive WriteFile_archive ReadFile_world)

lemma add_files_names:
  "add_files paths w = (Inr u, w') \<Longrightarrow>
   member_names w' = member_names w @ map (\<lambda>p. filepath_Join [''layers'', filepath_Base p]) paths"
proof (induction paths arbitrary: w)
  case Nil
  then show ?case by (simp add: returnIO_Inr)
next
  case (Cons p paths)
  from Cons.prems obtain c w1 where
    r: "ReadFile p w = (Inr c, w1)"
    and rest: "add_files paths (w1\<lparr>archive := archive w1 @ [(filepath_Join [''layers'', filepath_Base p], c)]\<rparr>) = (Inr u, w')"
    by (auto simp: bindIO_Inr thenIO_Inr Let_def writeZipFile_Inr)
  from r have "w1 = w" by (rule ReadFile_world)
  with Cons.IH[OF rest] show ?case by (simp add: member_names_def)
qed

lemma addPaintLayerToZip_names:
  assumes "addPaintLayerToZip env doc layer layerName w = (Inr u, w')"
  shows "member_names w' = member_names w
           @ map (\<lambda>p. filepath_Join [''layers'', filepath_Base p])
               [filepath_Join [TempDir doc, ''layers'', layerName],
                filepath_Join [TempDir doc, ''layers'', layerName] @ ''.defaultpixel'',
                filepath_Join [TempDir doc, ''layers'', layerName] @ ''.icc'']"
proof -
  from assms obtain img where img: "Image layer = AnImage img"
    by (cases "Image layer") (auto simp: addPaintLayerToZip_def failIO_Inr)
  from assms obtain w1 where
    a: "archive w1 = archive w"
    and f: "add_files [filepath_Join [TempDir doc, ''layers'', layerName],
                filepath_Join [TempDir doc, ''layers'', layerName] @ ''.defaultpixel'',
                filepath_Join [TempDir doc, ''layers'', layerName] @ ''.icc''] w1 = (Inr u, w')"
    unfolding addPaintLayerToZip_def img
    by (auto simp: Let_def thenIO_Inr bindIO_Inr simp del: add_files.simps
             dest!: NewRGBA_io_world SaveKritaLayer_archive WriteFile_archive ReadFile_world)
  from add_files_names[OF f] a show ?thesis by (simp add: member_names_def)
qed

lemma createPreview_names:
  assumes "createPreview env doc w = (Inr u, w')"
  shows "member_names w' = member_names w @ [''preview.png'']"
proof -
  have src: "preview_source doc w = (Inr p, w1) \<Longrightarrow> w1 = w" for p w1
    by (auto simp: preview_source_def Let_def returnIO_Inr failIO_Inr bindIO_Inr
             split: sum.splits option.splits dest!: NewRGBA_io_world)
  from assms obtain p w1 where s: "preview_source doc w = (Inr p, w1)"
    and rest: "(case png_Encode env (ApproxBiLinear_Scale env (NewRGBA (image_Rect 0 0 256 256)) p) of
                  Inl err \<Rightarrow> failIO err
                | Inr buf \<Rightarrow> writeZipFile ''preview.png'' buf) w1 = (Inr u, w')"
    by (auto simp: createPreview_def bindIO_Inr Let_def)
  from src[OF s] have w1: "w1 = w" .
  from rest obtain buf where "writeZipFile ''preview.png'' buf w1 = (Inr u, w')"
    by (cases "png_Encode env (ApproxBiLinear_Scale env (NewRGBA (image_Rect 0 0 256 256)) p)")
       (auto simp: failIO_Inr)
  with w1 show ?thesis
    by (simp add: writeZipFile_Inr member_names_def)
qed


lemma filepath_Base_after_slash:
  assumes "CHR ''/'' \<notin> set name" and "name \<noteq> []"
  shows "filepath_Base (pre @ CHR ''/'' # name) = name"
proof -
  let ?path = "pre @ CHR ''/'' # name"
  have r: "rev ?path = rev name @ CHR ''/'' # rev pre" by simp
  have hd: "hd (rev name) \<noteq> CHR ''/''"
    using assms by (metis hd_rev last_in_set)
  have ne: "rev name \<noteq> []" using assms by simp
  have d: "dropWhile (\<lambda>c. c = CHR ''/'') (rev ?path) = rev ?path"
    unfolding r using hd ne by (cases "rev name") simp_all
  have t: "takeWhile (\<lambda>c. c \<noteq> CHR ''/'') (rev ?path) = rev name"
    unfolding r using assms(1) by (subst takeWhile_append2) auto
  show ?thesis
    unfolding filepath_Base_def Let_def d rev_rev_ident t using assms(2) by simp
qed

lemma filepath_Join_layers:
  "name \<noteq> [] \<Longrightarrow> filepath_Join [''layers'', name] = ''layers/'' @ name"
  by (simp add: filepath_Join_def)

lemma filepath_Join_temp_layers:
  "name \<noteq> [] \<Longrightarrow> \<exists>pre. filepath_Join [T, ''layers'', name] = pre @ CHR ''/'' # name"
proof (cases "T = []")
  case True
  assume "name \<noteq> []"
  with True have "filepath_Join [T, ''layers'', name] = ''layers'' @ CHR ''/'' # name"
    by (simp add: filepath_Join_def)
  then show ?thesis by blast
next
  case False
  assume "name \<noteq> []"
  with False have "filepath_Join [T, ''layers'', name] = (T @ ''/layers'') @ CHR ''/'' # name"
    by (simp add: filepath_Join_def)
  then show ?thesis by blast
qed

lemma paint_member_names:
  assumes "CHR ''/'' \<notin> set name" and "name \<noteq> []"
  shows "map (\<lambda>p. filepath_Join [''layers'', filepath_Base p])
               [filepath_Join [T, ''layers'', name],
                filepath_Join [T, ''layers'', name] @ ''.defaultpixel'',
                filepath_Join [T, ''layers'', name] @ ''.icc'']
         = [''layers/'' @ name, ''layers/'' @ name @ ''.defaultpixel'', ''layers/'' @ name @ ''.icc'']"
proof -
  from filepath_Join_temp_layers[OF assms(2)] obtain pre where
    j: "filepath_Join [T, ''layers'', name] = pre @ CHR ''/'' # name" by blast
  have b1: "filepath_Base (pre @ CHR ''/'' # name) = name"
    using assms by (rule filepath_Base_after_slash)
  have b2: "filepath_Base (pre @ CHR ''/'' # (name @ ''.defaultpixel'')) = name @ ''.defaultpixel''"
    using assms by (intro filepath_Base_after_slash) auto
  have b3: "filepath_Base (pre @ CHR ''/'' # (name @ ''.icc'')) = name @ ''.icc''"
    using assms by (intro filepath_Base_after_slash) auto
  show ?thesis
    unfolding j using b1 b2 b3 assms(2) by (simp add: filepath_Join_layers)
qed

lemma shape_member_name:
  "name \<noteq> [] \<Longrightarrow>
   filepath_Join [''layers'', name @ ''.shapelayer'', ''content.svg'']
     = ''layers/'' @ name @ ''.shapelayer/content.svg''"
  by (simp add: filepath_Join_def)

lemma processLayers_names:
  "processLayers env doc lis w = (Inr u, w') \<Longrightarrow> \<forall>li \<in> set lis. plain_name li \<Longrightarrow>
   member_names w' = member_names w @ concat (map layer_members lis)"
proof (induction lis arbitrary: w)
  case Nil
  then show ?case by (simp add: returnIO_Inr)
next
  case (Cons li lis)
  from Cons.prems(2) have pl: "plain_name li" and rest: "\<forall>li \<in> set lis. plain_name li"
    by simp_all
  show ?case
  proof (cases "Layer li")
    case (ShapeLayerPtr layer)
    with pl have n: "LayerName li \<noteq> []" by (simp add: plain_name_def)
    from Cons.prems(1) ShapeLayerPtr obtain w1 where
      a: "addShapeLayerToZip doc layer (LayerName li) w = (Inr (), w1)"
      and p: "processLayers env doc lis w1 = (Inr u, w')"
      by (auto simp: thenIO_Inr)
    from addShapeLayerToZip_names[OF a] Cons.IH[OF p rest] ShapeLayerPtr n
    show ?thesis by (simp add: layer_members_def shape_member_name)
  next
    case (PaintLayerPtr layer)
    with pl have n: "LayerName li \<noteq> []" "CHR ''/'' \<notin> set (LayerName li)"
      by (simp_all add: plain_name_def)
    from Cons.prems(1) PaintLayerPtr obtain w1 where
      a: "addPaintLayerToZip env doc layer (LayerName li) w = (Inr (), w1)"
      and p: "processLayers env doc lis w1 = (Inr u, w')"
      by (auto simp: thenIO_Inr)
    from addPaintLayerToZip_names[OF a] Cons.IH[OF p rest] PaintLayerPtr
         paint_member_names[OF n(2) n(1), of "TempDir doc"]
    show ?thesis by (simp add: layer_members_def)
  next
    case OtherValue
    with Cons.prems(1) have p: "processLayers env doc lis w = (Inr u, w')" by simp
    from Cons.IH[OF p rest] OtherValue show ?thesis by (simp add: layer_members_def)
  qed
qed

lemma is_digit_not_slash: "is_digit c \<Longrightarrow> c \<noteq> CHR ''/''"
  by (auto simp: is_digit_def)

lemma slash_notin_digits: "CHR ''/'' \<notin> set (digits n)"
  using digits_all_digit[of n] by (auto simp: list_all_iff dest: is_digit_not_slash)

lemma plain_name_layer_info: "plain_name (layer_info env i layer)"
  by (cases layer)
     (auto simp: plain_name_def layer_info_def Let_def itoa_def slash_notin_digits digits_nonempty)

lemma plain_name_layer_infos: "\<forall>li \<in> set (layer_infos env layers). plain_name li"
  by (auto simp: layer_infos_def plain_name_layer_info)


lemma addsI: "(\<And>w u w'. m w = (Inr u, w') \<Longrightarrow> member_names w' = member_names w @ names) \<Longrightarrow> adds m names"
  by (simp add: adds_def)

lemma addsD: "adds m names \<Longrightarrow> m w = (Inr u, w') \<Longrightarrow> member_names w' = member_names w @ names"
  by (simp add: adds_def)

lemma adds_bindIO:
  assumes "adds m ns1" and "\<And>y. adds (f y) ns2"
  shows "adds (bindIO m f) (ns1 @ ns2)"
proof (rule addsI)
  fix w u w' assume "bindIO m f w = (Inr u, w')"
  then obtain y w1 where m: "m w = (Inr y, w1)" and f: "f y w1 = (Inr u, w')"
    by (auto simp: bindIO_Inr)
  from addsD[OF assms(1) m] addsD[OF assms(2) f]
  show "member_names w' = member_names w @ ns1 @ ns2" by simp
qed

lemma adds_thenIO: "adds m ns1 \<Longrightarrow> adds k ns2 \<Longrightarrow> adds (thenIO m k) (ns1 @ ns2)"
  unfolding thenIO_def by (rule adds_bindIO)

lemma adds_returnIO: "adds (returnIO x) []"
  by (rule addsI) (simp add: returnIO_Inr)

lemma adds_failIO: "adds (failIO e) ns"
  by (rule addsI) (simp add: failIO_Inr)

lemma adds_writeZipFile: "adds (writeZipFile name c) [name]"
  by (rule addsI) (simp add: writeZipFile_Inr member_names_def)

lemma adds_MkdirAll: "adds (MkdirAll p) []"
  by (rule addsI) (simp add: member_names_def MkdirAll_archive)

lemma adds_ReadFile: "adds (ReadFile p) []"
  by (rule addsI) (auto dest: ReadFile_world)

lemma adds_RemoveAll: "adds (RemoveAll p) []"
  by (rule addsI) (simp add: member_names_def RemoveAll_archive)

lemma adds_createPreview: "adds (createPreview env doc) [''preview.png'']"
  by (rule addsI) (rule createPreview_names)

lemma adds_processLayers:
  "adds (processLayers env doc (layer_infos env layers))
        (concat (map layer_members (layer_infos env layers)))"
  by (rule addsI) (rule processLayers_names, assumption, rule plain_name_layer_infos)

lemma adds_style_step:
  "adds (if hasStyle then
           (case CreateLayerStylesASL layerInfos of
              Inl err \<Rightarrow> failIO err
            | Inr aslBytes \<Rightarrow> writeZipFile name aslBytes)
         else returnIO ())
        (if hasStyle then [name] else [])"
proof (cases hasStyle)
  case True
  then show ?thesis
    by (cases "CreateLayerStylesASL layerInfos") (simp_all add: adds_failIO adds_writeZipFile)
next
  case False
  then show ?thesis by (simp add: adds_returnIO)
qed

lemma adds_eq: "adds m ns \<Longrightarrow> ns = ns' \<Longrightarrow> adds m ns'"
  by simp

lemma Save_after_Create:
  "Save env doc outputPath =
     thenIO (MkdirAll (filepath_Join [TempDir doc, ''layers'']))
    (thenIO (MkdirAll (filepath_Join [TempDir doc, ''annotations'']))
    (thenIO (MkdirAll (filepath_Join [TempDir doc, ''animation'']))
    (thenIO (Create outputPath) (after_Create env doc))))"
  by (simp add: Save_def after_Create_def Let_def)

lemma adds_after_Create:
  "adds (after_Create env doc)
     ([''mimetype'', ''documentinfo.xml'', ''maindoc.xml'']
       @ concat (map layer_members (layer_infos env (Layers doc)))
       @ [filepath_Join [TempDir doc, ''animation'', ''index.xml''],
          filepath_Join [TempDir doc, ''annotations'', ''icc''],
          ''preview.png'']
       @ (if list_ex (\<lambda>li. styled li \<noteq> None) (layer_infos env (Layers doc))
          then [filepath_Join [TempDir doc, ''annotations'', ''layerstyles.asl'']] else []))"
  unfolding after_Create_def Let_def
  apply (rule adds_eq)
   apply (rule adds_thenIO adds_bindIO adds_writeZipFile adds_processLayers adds_ReadFile
            adds_createPreview adds_style_step adds_RemoveAll adds_returnIO)+
  apply simp
  done

lemma Save_member_names:
  assumes "Save env doc outputPath w = (Inr u, w')"
  shows "member_names w' =
           [''mimetype'', ''documentinfo.xml'', ''maindoc.xml'']
           @ concat (map layer_members (layer_infos env (Layers doc)))
           @ [filepath_Join [TempDir doc, ''animation'', ''index.xml''],
              filepath_Join [TempDir doc, ''annotations'', ''icc''],
              ''preview.png'']
           @ (if list_ex (\<lambda>li. styled li \<noteq> None) (layer_infos env (Layers doc))
              then [filepath_Join [TempDir doc, ''annotations'', ''layerstyles.asl'']] else [])"
proof -
  from assms obtain wc ws where
    c: "Create outputPath wc = (Inr (), ws)" and a: "after_Create env doc ws = (Inr u, w')"
    unfolding Save_after_Create by (auto simp: thenIO_Inr)
  from c have "member_names ws = []"
    by (simp add: member_names_def Create_archive)
  with addsD[OF adds_after_Create a] show ?thesis by simp
qed


lemma itoa_2: "itoa 2 = ''2''" by code_simp
lemma itoa_3: "itoa 3 = ''3''" by code_simp
lemma itoa_4: "itoa 4 = ''4''" by code_simp

lemmas io_defs = bindIO_def thenIO_def returnIO_def failIO_def MkdirAll_def WriteFile_def
  ReadFile_def Create_def writeZipFile_def RemoveAll_def NewRGBA_io_def SaveKritaLayer_def
  filepath_Join_def filepath_Base_def dir_chain_def is_file_def is_dir_def parent_ok_def

lemma example_infos:
  "layer_infos example_env (Layers example_doc) =
     [\<lparr>Layer = ShapeLayerPtr example_text, UUID_info = UUID example_text, LayerName = ''layer2''\<rparr>,
      \<lparr>Layer = ShapeLayerPtr example_shape, UUID_info = UUID example_shape, LayerName = ''layer3''\<rparr>,
      \<lparr>Layer = PaintLayerPtr example_paint,
        UUID_info = ''{9d2f6c1e-0a4b-4c3d-8e5f-000000000002}'', LayerName = ''layer4''\<rparr>]"
  by (simp add: layer_infos_def example_doc_def layer_info_def Let_def upt_rec itoa_2 itoa_3 itoa_4
        example_text_def example_shape_def example_env_def)

lemma Save_example_succeeds:
  "fst (Save example_env example_doc ''output.kra'' world_with_profile) = Inr ()"
  unfolding Save_def example_infos
  by (simp add: io_defs Let_def example_doc_def world_with_profile_def
        addShapeLayerToZip_def addPaintLayerToZip_def example_paint_def createPreview_def
        preview_source_def example_env_def CreateLayerStylesASL_def styled_def example_text_def
        example_shape_def Bounds_blank_image Dx_def Dy_def split: prod.splits)

lemma krita_layer_bytes_failing_1x1:
  "krita_layer_bytes failing_compressor (blank_image 1 1)
     = layer_file_header 1 @ bytes_of (''0,0,LZF,1'' @ [CHR 0x0A]) @ [0x01]"
  unfolding krita_layer_bytes_eq tile_entries_failing_1x1 by simp

lemma filepath_Base_Join_temp:
  assumes "CHR ''/'' \<notin> set name" and "name \<noteq> []" and "mid \<noteq> []"
  shows "filepath_Base (filepath_Join [T, mid, name]) = name"
proof -
  have "\<exists>pre. filepath_Join [T, mid, name] = pre @ CHR ''/'' # name"
  proof (cases "T = []")
    case True
    with assms have "filepath_Join [T, mid, name] = mid @ CHR ''/'' # name"
      by (simp add: filepath_Join_def)
    then show ?thesis by blast
  next
    case False
    with assms have "filepath_Join [T, mid, name] = (T @ ''/'' @ mid) @ CHR ''/'' # name"
      by (simp add: filepath_Join_def)
    then show ?thesis by blast
  qed
  then obtain pre where "filepath_Join [T, mid, name] = pre @ CHR ''/'' # name" by blast
  with filepath_Base_after_slash[OF assms(1,2)] show ?thesis by simp
qed

lemma three_layer_infos:
  assumes "LayerStyle t = None" and "LayerStyle s = None"
  shows "concat (map layer_members
           (layer_infos env [ShapeLayerPtr t, ShapeLayerPtr s, PaintLayerPtr p]))
         = [''layers/layer2.shapelayer/content.svg'', ''layers/layer3.shapelayer/content.svg'',
            ''layers/layer4'', ''layers/layer4.defaultpixel'', ''layers/layer4.icc'']"
    and "\<not> list_ex (\<lambda>li. styled li \<noteq> None)
           (layer_infos env [ShapeLayerPtr t, ShapeLayerPtr s, PaintLayerPtr p])"
  using assms
  by (simp_all add: layer_infos_def layer_info_def Let_def upt_rec itoa_2 itoa_3 itoa_4
        layer_members_def styled_def)



lemma Save_example_result:
  "Save example_env example_doc ''output.kra'' world_with_profile
     = (Inr (), snd (Save example_env example_doc ''output.kra'' world_with_profile))"
  using Save_example_succeeds
  by (cases "Save example_env example_doc ''output.kra'' world_with_profile") simp

lemma example_doc_layers:
  "Layers example_doc = [ShapeLayerPtr example_text, ShapeLayerPtr example_shape,
                         PaintLayerPtr example_paint]"
  "ContentType example_text = ''text''" "ContentType example_shape = ''shape''"
  "LayerStyle example_text = None" "LayerStyle example_shape = None"
  by (simp_all add: example_doc_def example_text_def example_shape_def)

lemma transparent_canvas:
  "draw_Draw_Uniform (NewRGBA r) (Bounds (NewRGBA r)) (RGBA 0 0 0 0) = NewRGBA r"
  by (simp add: draw_Draw_Uniform_def NewRGBA_def cong: if_cong)



lemma preview_source_last_paint:
  assumes "Layers doc \<noteq> []" and "last (Layers doc) = PaintLayerPtr pl" and "Image pl = AnImage img"
  shows "preview_source doc w = (Inr img, w)"
  using assms by (simp add: preview_source_def Let_def returnIO_def)

text \<open>Inside the image a tile pixel is the source pixel at the tile's origin plus its position.\<close>


lemma tile_image_At:
  assumes "0 \<le> tx" and "0 \<le> ty" and "tx * 64 < w" and "ty * 64 < h"
      and "w \<le> 2 ^ 53" and "h \<le> 2 ^ 53" and "tx * 64 + 64 \<le> 2 ^ 53" and "ty * 64 + 64 \<le> 2 ^ 53"
      and "0 \<le> x" and "x < 64" and "0 \<le> y" and "y < 64"
  shows "At (tile_image img w h tx ty) x y = At img (tx * 64 + x) (ty * 64 + y)"
proof -
  have fx: "float_min (tx * 64 + 64) w = min (tx * 64 + 64) w"
    using assms by (simp add: float_min_def float64_of_int_small)
  have fy: "float_min (ty * 64 + 64) h = min (ty * 64 + 64) h"
    using assms by (simp add: float_min_def float64_of_int_small)
  have m: "MinX (image_Rect (tx * 64) (ty * 64) (min (tx * 64 + 64) w) (min (ty * 64 + 64) h)) = tx * 64"
          "MinY (image_Rect (tx * 64) (ty * 64) (min (tx * 64 + 64) w) (min (ty * 64 + 64) h)) = ty * 64"
    using assms by (simp_all add: image_Rect_def)
  have t: "tile_image img w h tx ty
             = draw_Draw_Src (NewRGBA (image_Rect 0 0 64 64)) (image_Rect 0 0 64 64) img
                 (tx * 64, ty * 64)"
    by (simp add: tile_image_def Let_def fx fy m)
  show ?thesis
    unfolding t using assms(9-12)
    by (auto simp add: At_def draw_Draw_Src_def NewRGBA_def image_Rect_def In_rect_def Let_def)
qed
section \<open>Claims about the tile codec\<close>

text \<open>
  Claim C2 (as amended). For every input image of width \<open>0 < W \<le> 2^53\<close> and height
  \<open>0 < H \<le> 2^53\<close> (the range in which the \<^verbatim>\<open>float64\<close> conversion that computes the
  tile counts is exact), \<^verbatim>\<open>SaveKritaLayer\<close> emits exactly \<open>ceil(W/64) * ceil(H/64)\<close>
  tile records and writes that count after \<^verbatim>\<open>DATA\<close>, followed by the records; the
  origins declared by the tile headers are, in order, the row-major list of the
  multiples of 64: tile rows top to bottom, tile columns left to right within each row;
  and every one of them lies within \<open>[0,W) \<times> [0,H)\<close>.
\<close>

theorem tile_grid_row_major:
  assumes "0 < Dx (Bounds img)" and "Dx (Bounds img) \<le> 2 ^ 53"
      and "0 < Dy (Bounds img)" and "Dy (Bounds img) \<le> 2 ^ 53"
  shows "length (tile_entries Compress img)
           = nat \<lceil>real_of_int (Dx (Bounds img)) / 64\<rceil> * nat \<lceil>real_of_int (Dy (Bounds img)) / 64\<rceil>
       \<and> krita_layer_bytes Compress img
           = layer_file_header (nat \<lceil>real_of_int (Dx (Bounds img)) / 64\<rceil>
                                * nat \<lceil>real_of_int (Dy (Bounds img)) / 64\<rceil>)
             @ concat (map (\<lambda>e. Header e @ Data e) (tile_entries Compress img))
       \<and> map header_origin (tile_entries Compress img)
           = map Some (row_major_origins (nat \<lceil>real_of_int (Dx (Bounds img)) / 64\<rceil>)
                                         (nat \<lceil>real_of_int (Dy (Bounds img)) / 64\<rceil>))
       \<and> (\<forall>(left, top') \<in> set (row_major_origins (nat \<lceil>real_of_int (Dx (Bounds img)) / 64\<rceil>)
                                                    (nat \<lceil>real_of_int (Dy (Bounds img)) / 64\<rceil>)).
             64 dvd left \<and> int left < Dx (Bounds img) \<and> 64 dvd top' \<and> int top' < Dy (Bounds img))"
proof -
  let ?W = "Dx (Bounds img)" and ?H = "Dy (Bounds img)"
  have nx: "ceil_div_64 ?W = \<lceil>real_of_int ?W / 64\<rceil>"
    using assms(1,2) by (intro ceil_div_64_small) simp_all
  have ny: "ceil_div_64 ?H = \<lceil>real_of_int ?H / 64\<rceil>"
    using assms(3,4) by (intro ceil_div_64_small) simp_all
  have len: "length (tile_entries Compress img)
           = nat \<lceil>real_of_int ?W / 64\<rceil> * nat \<lceil>real_of_int ?H / 64\<rceil>"
    by (simp only: length_tile_entries nx ny)
  have fl: "krita_layer_bytes Compress img
           = layer_file_header (nat \<lceil>real_of_int ?W / 64\<rceil> * nat \<lceil>real_of_int ?H / 64\<rceil>)
             @ concat (map (\<lambda>e. Header e @ Data e) (tile_entries Compress img))"
    by (simp only: krita_layer_bytes_eq len)
  have org: "map header_origin (tile_entries Compress img)
           = map Some (row_major_origins (nat \<lceil>real_of_int ?W / 64\<rceil>) (nat \<lceil>real_of_int ?H / 64\<rceil>))"
    by (simp only: map_header_origin nx ny)
  have rng: "\<forall>(left, top') \<in> set (row_major_origins (nat \<lceil>real_of_int ?W / 64\<rceil>)
                                                    (nat \<lceil>real_of_int ?H / 64\<rceil>)).
             64 dvd left \<and> int left < ?W \<and> 64 dvd top' \<and> int top' < ?H"
    by (auto simp: row_major_origins_mem ceiling_tiles_cover simp del: of_nat_mult)
  from len fl org rng show ?thesis by blast
qed



text \<open>
  The theorem at a 65 by 65 image: four tiles, with origins (0,0), (64,0), (0,64),
  (64,64).
\<close>

theorem tile_grid_row_major_witness:
  "length (tile_entries storing_compressor (blank_image 65 65)) = 4
   \<and> map header_origin (tile_entries storing_compressor (blank_image 65 65))
       = [Some (0, 0), Some (64, 0), Some (0, 64), Some (64, 64)]"
proof -
  have b: "Dx (Bounds (blank_image 65 65)) = 65" "Dy (Bounds (blank_image 65 65)) = 65"
    by (simp_all add: Bounds_blank_image Dx_def Dy_def)
  have c: "nat \<lceil>real_of_int 65 / 64\<rceil> = 2"
    unfolding ceiling_div_64 by simp
  have r: "row_major_origins 2 2 = [(0, 0), (64, 0), (0, 64), (64, 64)]"
    by (simp add: row_major_origins_def numeral_2_eq_2)
  show ?thesis
    using tile_grid_row_major [of "blank_image 65 65" storing_compressor]
    unfolding b c r by simp
qed



text \<open>
  Beyond \<open>2^53\<close> the count can differ: for \<open>W = 2^53 + 1\<close> the conversion
  \<^verbatim>\<open>float64(w)\<close> rounds to \<open>2^53\<close>, so the code makes \<open>2^47\<close> tile columns where
  \<open>ceil(W/64)\<close> is \<open>2^47 + 1\<close>.
\<close>

theorem tile_count_counterexample:
  "length (tile_entries storing_compressor (blank_image 9007199254740993 1))
     \<noteq> nat \<lceil>real_of_int (Dx (Bounds (blank_image 9007199254740993 1))) / 64\<rceil>
       * nat \<lceil>real_of_int (Dy (Bounds (blank_image 9007199254740993 1))) / 64\<rceil>"
proof -
  have b: "Dx (Bounds (blank_image 9007199254740993 1)) = 9007199254740993"
          "Dy (Bounds (blank_image 9007199254740993 1)) = 1"
    by (simp_all add: Bounds_blank_image Dx_def Dy_def)
  have nx: "ceil_div_64 9007199254740993 = 140737488355328"
    by (simp add: ceil_div_64_def float64_of_int_def float64_round_above_2_53)
  have ny: "ceil_div_64 1 = 1"
    by (simp add: ceil_div_64_def float64_of_int_small)
  have l: "length (tile_entries storing_compressor (blank_image 9007199254740993 1)) = 140737488355328"
    unfolding length_tile_entries b nx ny by simp
  have r: "nat \<lceil>real_of_int 9007199254740993 / 64\<rceil> * nat \<lceil>real_of_int 1 / 64\<rceil> = 140737488355329"
    unfolding ceiling_div_64 by simp
  show ?thesis unfolding l b r by simp
qed

text \<open>
  Claim C5. For every tile, the pixels of the 64 by 64 tile image are decomposed into
  four separate planes in the fixed order Blue, Green, Red, Alpha: each plane holds one
  channel of all pixels, row by row, and has 4096 bytes; the four planes are joined
  into one buffer of 16384 bytes, and that buffer is the argument of the compression
  step whose result follows the flag byte in the tile's payload.
\<close>

theorem planes_blue_green_red_alpha:
  "planeData (tile_image img w h tx ty)
     = plane_of rgba_B (tile_image img w h tx ty) @ plane_of rgba_G (tile_image img w h tx ty)
       @ plane_of rgba_R (tile_image img w h tx ty) @ plane_of rgba_A (tile_image img w h tx ty)
   \<and> length (plane_of rgba_B (tile_image img w h tx ty)) = 4096
   \<and> length (plane_of rgba_G (tile_image img w h tx ty)) = 4096
   \<and> length (plane_of rgba_R (tile_image img w h tx ty)) = 4096
   \<and> length (plane_of rgba_A (tile_image img w h tx ty)) = 4096
   \<and> length (planeData (tile_image img w h tx ty)) = 16384
   \<and> Data (make_tile Compress img w h tx ty)
       = 0x01 # (case Compress (planeData (tile_image img w h tx ty)) of
                   Inl err \<Rightarrow> [] | Inr compressed \<Rightarrow> compressed)"
  by (simp add: planeData_eq length_plane_of make_tile_def tile_record_Data)


text \<open>
  Claim C10. The layer file is its fixed header followed, for every tile record in
  order, by the tile's header line and then its payload. For every tile record the
  payload-length number printed in the header line is the number of payload bytes:
  the flag byte plus the output of the compression. When the compression fails, the
  payload is the flag byte alone and the declared length is 1.
\<close>

theorem header_declares_payload_length:
  "krita_layer_bytes Compress img
     = layer_file_header (length (tile_entries Compress img))
       @ concat (map (\<lambda>e. Header e @ Data e) (tile_entries Compress img))
   \<and> (\<forall>e \<in> set (tile_entries Compress img). \<exists>left top' plane_data.
         parse_tile_header (string_of (Header e)) = Some (left, top', ''LZF'', length (Data e))
         \<and> Data e = 0x01 # (case Compress plane_data of Inl err \<Rightarrow> [] | Inr compressed \<Rightarrow> compressed)
         \<and> (\<forall>err. Compress plane_data = Inl err \<longrightarrow>
               Data e = [0x01]
               \<and> parse_tile_header (string_of (Header e)) = Some (left, top', ''LZF'', 1)))"
proof (intro conjI ballI)
  show "krita_layer_bytes Compress img
     = layer_file_header (length (tile_entries Compress img))
       @ concat (map (\<lambda>e. Header e @ Data e) (tile_entries Compress img))"
    by (rule krita_layer_bytes_eq)
next
  fix e assume "e \<in> set (tile_entries Compress img)"
  then obtain tx ty where
    e: "e = make_tile Compress img (Dx (Bounds img)) (Dy (Bounds img)) (int tx) (int ty)"
    by (rule tile_entries_mem)
  let ?pd = "planeData (tile_image img (Dx (Bounds img)) (Dy (Bounds img)) (int tx) (int ty))"
  have p: "parse_tile_header (string_of (Header e))
             = Some (nat (int tx * 64), nat (int ty * 64), ''LZF'', length (Data e))"
    unfolding e make_tile_def by (rule tile_record_parse) simp_all
  have d: "Data e = 0x01 # (case Compress ?pd of Inl err \<Rightarrow> [] | Inr compressed \<Rightarrow> compressed)"
    unfolding e make_tile_def by (rule tile_record_Data)
  have f: "\<forall>err. Compress ?pd = Inl err \<longrightarrow>
             Data e = [0x01]
             \<and> parse_tile_header (string_of (Header e))
                 = Some (nat (int tx * 64), nat (int ty * 64), ''LZF'', 1)"
    using p d by auto
  from p d f show "\<exists>left top' plane_data.
         parse_tile_header (string_of (Header e)) = Some (left, top', ''LZF'', length (Data e))
         \<and> Data e = 0x01 # (case Compress plane_data of Inl err \<Rightarrow> [] | Inr compressed \<Rightarrow> compressed)
         \<and> (\<forall>err. Compress plane_data = Inl err \<longrightarrow>
               Data e = [0x01]
               \<and> parse_tile_header (string_of (Header e)) = Some (left, top', ''LZF'', 1))"
    by blast
qed

text \<open>
  The theorem at a 1 by 1 image with a compressor that fails: the only tile record has
  the header line \<^verbatim>\<open>0,0,LZF,1\<close> and a payload of one byte.
\<close>

theorem header_declares_payload_length_witness:
  "\<lparr>Header = bytes_of (''0,0,LZF,1'' @ [CHR 0x0A]), Data = [0x01]\<rparr>
      \<in> set (tile_entries failing_compressor (blank_image 1 1))
   \<and> (\<exists>left top'. parse_tile_header (string_of (bytes_of (''0,0,LZF,1'' @ [CHR 0x0A])))
                      = Some (left, top', ''LZF'', length [0x01 :: byte]))"
  using header_declares_payload_length [of failing_compressor "blank_image 1 1"]
  unfolding tile_entries_failing_1x1 by auto


text \<open>
  Claim C1 asks that a tile whose compression fails is either written uncompressed
  under a no-compression tag or makes \<^verbatim>\<open>SaveKritaLayer\<close> fail. The code does neither:
  for a 1 by 1 image and a compressor that fails, \<^verbatim>\<open>SaveKritaLayer\<close> returns without
  error, and the file it has written holds one tile whose header line still carries the
  tag \<^verbatim>\<open>LZF\<close> and whose payload is the flag byte \<^verbatim>\<open>0x01\<close> with nothing after it.
\<close>

theorem SaveKritaLayer_compression_failure:
  "fst (SaveKritaLayer failing_compressor (blank_image 1 1) ''layer2'' world_without_profile)
     = Inr ()
   \<and> fs (snd (SaveKritaLayer failing_compressor (blank_image 1 1) ''layer2''
                world_without_profile)) ''layer2''
     = Some (File (layer_file_header 1 @ bytes_of (''0,0,LZF,1'' @ [CHR 0x0A]) @ [0x01]))"
  by (simp add: SaveKritaLayer_def WriteFile_def krita_layer_bytes_failing_1x1
        world_without_profile_def is_dir_def parent_ok_def dir_chain_def)



section \<open>Claims about the style block encoder\<close>

text \<open>
  Claim C6 (as amended). For every string \<open>s\<close> that \<^verbatim>\<open>writeASLString\<close> encodes in
  "embedded" mode behind any buffer \<open>buf\<close>: what is written is the u32 length prefix,
  the encoded buffer and the zero padding; the encoded buffer is each byte of \<open>s\<close>
  followed by a zero byte, then two zero bytes; its length is \<open>2 * len(s) + 2\<close>, an
  even number; the bytes written after the length field are a multiple of 4; and the
  big-endian u32 prefix is that length modulo \<open>2^32\<close>, hence equal to it whenever
  \<open>2 * len(s) + 2 < 2^32\<close>.
\<close>

theorem writeASLString_embedded_layout:
  "writeASLString buf s ''embedded'' =
       buf @ be_u32 (word_of_nat (length (encode_string s ''embedded'')))
           @ encode_string s ''embedded''
           @ replicate ((4 - length (encode_string s ''embedded'') mod 4) mod 4) 0
   \<and> encode_string s ''embedded'' = concat (map (\<lambda>c. [of_char c, 0]) s) @ [0, 0]
   \<and> length (encode_string s ''embedded'') = 2 * length s + 2
   \<and> even (length (encode_string s ''embedded''))
   \<and> 4 dvd length (drop (length buf + 4) (writeASLString buf s ''embedded''))
   \<and> unat (Uint32 (take 4 (drop (length buf) (writeASLString buf s ''embedded''))))
       = (2 * length s + 2) mod 2 ^ 32
   \<and> (2 * length s + 2 < 2 ^ 32 \<longrightarrow>
        unat (Uint32 (take 4 (drop (length buf) (writeASLString buf s ''embedded''))))
        = length (encode_string s ''embedded''))"
proof -
  let ?enc = "encode_string s ''embedded''"
  let ?pad = "(4 - length ?enc mod 4) mod 4"
  have len: "length ?enc = 2 * length s + 2"
    by (rule length_encode_string_embedded)
  have pad: "(4 - (2 * length s + 2) mod 4) mod 4 = (if even (length s) then 2 else 0)"
    by (rule padding_embedded)
  have "writeASLString buf s ''embedded'' =
          buf @ be_u32 (word_of_nat (2 * length s + 2)) @ (encode_embedded s @ [0, 0])
              @ replicate (if even (length s) then 2 else 0) 0"
    by (simp add: writeASLString_embedded)
  also have "encode_embedded s @ [0, 0] = ?enc"
    by (simp add: encode_string_def)
  finally have w: "writeASLString buf s ''embedded'' =
             buf @ be_u32 (word_of_nat (length ?enc)) @ ?enc @ replicate ?pad 0"
    unfolding len pad .
  have enc: "?enc = concat (map (\<lambda>c. [of_char c, 0]) s) @ [0, 0]"
    by (simp add: encode_string_def encode_embedded_concat)
  have ev: "even (length ?enc)"
    unfolding len by simp
  have dl: "length (drop (length buf + 4) (writeASLString buf s ''embedded''))
              = (if even (length s) then 2 * length s + 4 else 2 * length s + 2)"
    unfolding w by (simp add: len padding_embedded')
  have d4: "4 dvd length (drop (length buf + 4) (writeASLString buf s ''embedded''))"
  proof (cases "even (length s)")
    case True
    then obtain k where "length s = 2 * k" by (auto elim: evenE)
    with True dl have "length (drop (length buf + 4) (writeASLString buf s ''embedded'')) = 4 * (k + 1)"
      by simp
    then show ?thesis by (metis dvd_triv_left)
  next
    case False
    then obtain k where "length s = 2 * k + 1" by (auto elim: oddE)
    with False dl have "length (drop (length buf + 4) (writeASLString buf s ''embedded'')) = 4 * (k + 1)"
      by simp
    then show ?thesis by (metis dvd_triv_left)
  qed
  have pre: "Uint32 (take 4 (drop (length buf) (writeASLString buf s ''embedded'')))
               = word_of_nat (2 * length s + 2)"
    unfolding w len by (simp add: Uint32_be_u32)
  have u1: "unat (Uint32 (take 4 (drop (length buf) (writeASLString buf s ''embedded''))))
              = (2 * length s + 2) mod 2 ^ 32"
    unfolding pre using unat_of_nat[where 'a=32, of "2 * length s + 2"] by simp
  have u2: "2 * length s + 2 < 2 ^ 32 \<longrightarrow>
        unat (Uint32 (take 4 (drop (length buf) (writeASLString buf s ''embedded''))))
        = length ?enc"
    unfolding u1 len by simp
  from w enc len ev d4 u1 u2 show ?thesis by blast
qed

text \<open>The theorem at the string \<^verbatim>\<open>"Hi"\<close> written behind a one-byte buffer.\<close>

theorem writeASLString_embedded_layout_witness:
  "2 * length ''Hi'' + 2 < (2::nat) ^ 32
   \<and> unat (Uint32 (take 4 (drop (length [7::byte]) (writeASLString [7] ''Hi'' ''embedded''))))
       = length (encode_string ''Hi'' ''embedded'')"
  using writeASLString_embedded_layout [of "[7]" "''Hi''"]
  by (simp add: Uint32_be_u32)

text \<open>
  Without the bound the prefix and the length differ: for a string of \<open>2^31 - 1\<close>
  bytes the encoded buffer has \<open>2^32\<close> bytes and \<^verbatim>\<open>uint32(len(encoded))\<close> is 0.
\<close>

theorem writeASLString_length_prefix_counterexample:
  "unat (Uint32 (take 4 (writeASLString [] (replicate 2147483647 CHR ''a'') ''embedded'')))
     \<noteq> length (encode_string (replicate 2147483647 CHR ''a'') ''embedded'')"
proof -
  have "Uint32 (take 4 (writeASLString [] (replicate 2147483647 CHR ''a'') ''embedded'')) 
          = word_of_nat (2 * 2147483647 + 2)"
    by (simp add: writeASLString_embedded Uint32_be_u32)
  then have "unat (Uint32 (take 4 (writeASLString [] (replicate 2147483647 CHR ''a'') ''embedded''))) = 0"
    by simp
  moreover have "length (encode_string (replicate 2147483647 CHR ''a'') ''embedded'') = 4294967296"
    by (simp add: length_encode_string_embedded)
  ultimately show ?thesis by simp
qed

text \<open>
  Claim C7 (as amended). When fewer than \<open>2^32\<close> input layers carry a style and the
  body of every style record is shorter than \<open>2^32\<close> bytes, \<^verbatim>\<open>CreateLayerStylesASL\<close>
  returns a block that consists of the 12 fixed header bytes, the u32 \<open>style_count\<close>
  and, for each styled layer in input order, a u32 length field followed by the record
  body. A reader that takes \<open>style_count\<close> from the header and then, record by
  record, the length field and that many bytes, uses up the block exactly and obtains
  the bodies the encoder wrote: \<open>style_count\<close> is the number of layers with a style,
  and every length field is the byte length of its record's body.
\<close>

theorem CreateLayerStylesASL_count_and_lengths:
  assumes "length (filter (\<lambda>li. styled li \<noteq> None) layerInfos) < 2 ^ 32"
      and "\<forall>(sl, ls) \<in> set (List.map_filter styled layerInfos).
             length (write_style_body [] sl ls) < 2 ^ 32"
  shows "\<exists>out. CreateLayerStylesASL layerInfos = Inr out \<and>
           out = be_u16 2 @ bytes_of ''8BSL'' @ be_u16 3 @ be_u32 0
                 @ be_u32 (word_of_nat (length (filter (\<lambda>li. styled li \<noteq> None) layerInfos)))
                 @ concat (map (\<lambda>(sl, ls).
                      be_u32 (word_of_nat (length (write_style_body [] sl ls)))
                      @ write_style_body [] sl ls) (List.map_filter styled layerInfos)) \<and>
           read_style_block out =
             Some (length (filter (\<lambda>li. styled li \<noteq> None) layerInfos),
                   map (\<lambda>(sl, ls). write_style_body [] sl ls) (List.map_filter styled layerInfos))"
proof -
  let ?n = "length (filter (\<lambda>li. styled li \<noteq> None) layerInfos)"
  let ?ps = "List.map_filter styled layerInfos"
  let ?bodies = "map (\<lambda>(sl, ls). write_style_body [] sl ls) ?ps"
  let ?hdr = "be_u16 2 @ bytes_of ''8BSL'' @ be_u16 3 @ be_u32 0"
  let ?recs = "concat (map (\<lambda>b. be_u32 (word_of_nat (length b)) @ b) ?bodies)"
  let ?out = "?hdr @ be_u32 (word_of_nat ?n) @ ?recs"
  have out: "CreateLayerStylesASL layerInfos = Inr ?out"
    by (simp add: CreateLayerStylesASL_eq map_style_record)
  have recs: "concat (map (\<lambda>(sl, ls). be_u32 (word_of_nat (length (write_style_body [] sl ls)))
                      @ write_style_body [] sl ls) ?ps) = ?recs"
    by (simp add: comp_def split_def)
  have hdr: "length ?hdr = 12" by simp
  have cnt: "unat (Uint32 (take 4 (drop 12 ?out))) = ?n"
    using assms(1) by (simp add: Uint32_be_u32 unat_u32_of_nat)
  have rest: "drop 16 ?out = ?recs" by simp
  have "\<forall>b \<in> set ?bodies. length b < 2 ^ 32"
    using assms(2) by auto
  then have rd: "read_records (length ?bodies) ?recs = Some ?bodies"
    by (rule read_records_concat)
  have lb: "length ?bodies = ?n"
    by (simp add: length_map_filter_styled)
  have "read_style_block ?out = Some (?n, ?bodies)"
    unfolding read_style_block_def Let_def cnt rest
    using rd lb by simp
  with out recs show ?thesis by simp
qed

text \<open>
  The theorem at a document of one unstyled text layer and one styled shape layer: one
  record, whose body has 401 bytes.
\<close>

theorem CreateLayerStylesASL_count_and_lengths_witness:
  "\<exists>out. CreateLayerStylesASL
            [info_of (ShapeLayerPtr example_text), info_of (ShapeLayerPtr styled_shape)] = Inr out \<and>
         read_style_block out = Some (1, [write_style_body [] styled_shape example_style])"
proof -
  let ?lis = "[info_of (ShapeLayerPtr example_text), info_of (ShapeLayerPtr styled_shape)]"
  have ps: "List.map_filter styled ?lis = [(styled_shape, example_style)]"
    by (simp add: styled_def info_of_def example_text_def styled_shape_def)
  have n: "length (filter (\<lambda>li. styled li \<noteq> None) ?lis) = 1"
    by (simp add: styled_def info_of_def example_text_def styled_shape_def)
  have h1: "length (filter (\<lambda>li. styled li \<noteq> None) ?lis) < 2 ^ 32"
    unfolding n by simp
  have "length (write_style_body [] styled_shape example_style) = 401"
    by (simp add: write_style_body_def write_stroke_def writeASLString_embedded Let_def
          styled_shape_def example_shape_def example_style_def strip_hyphens_def)
  then have h2: "\<forall>(sl, ls) \<in> set (List.map_filter styled ?lis).
             length (write_style_body [] sl ls) < 2 ^ 32"
    unfolding ps by simp
  show ?thesis
    using CreateLayerStylesASL_count_and_lengths [OF h1 h2] unfolding ps n by auto
qed

text \<open>
  Without the bounds the length field and the body length differ: the body of a styled
  layer whose name has \<open>2^31\<close> bytes is longer than any u32 value.
\<close>

theorem CreateLayerStylesASL_record_length_counterexample:
  "unat (Uint32 (take 4 (drop 16 (projr (CreateLayerStylesASL [info_of (ShapeLayerPtr long_name_shape)])))))
     \<noteq> length (drop 20 (projr (CreateLayerStylesASL [info_of (ShapeLayerPtr long_name_shape)])))"
proof -
  let ?body = "write_style_body [] long_name_shape example_style"
  have ps: "List.map_filter styled [info_of (ShapeLayerPtr long_name_shape)]
              = [(long_name_shape, example_style)]"
    by (simp add: styled_def info_of_def long_name_shape_def styled_shape_def)
  have out: "projr (CreateLayerStylesASL [info_of (ShapeLayerPtr long_name_shape)])
          = be_u16 2 @ bytes_of ''8BSL'' @ be_u16 3 @ be_u32 0 @ be_u32 1
            @ be_u32 (word_of_nat (length ?body)) @ ?body"
    unfolding CreateLayerStylesASL_eq ps
    by (simp add: styled_def info_of_def long_name_shape_def styled_shape_def style_record_def)
  have "unat (Uint32 (take 4 (drop 16 (projr (CreateLayerStylesASL [info_of (ShapeLayerPtr long_name_shape)])))))
          < 2 ^ 32"
    using unat_u32_bound by simp
  moreover have "2 * length (Name long_name_shape) \<le> length ?body"
    by (rule length_write_style_body_ge)
  then have "2 ^ 32 \<le> length ?body"
    by (simp add: long_name_shape_def)
  then have "2 ^ 32 \<le> length (drop 20 (projr (CreateLayerStylesASL [info_of (ShapeLayerPtr long_name_shape)])))"
    unfolding out by simp
  ultimately show ?thesis by linarith
qed

section \<open>Claims about the manifest builder\<close>

text \<open>
  Claim C3 (as amended). \<^verbatim>\<open>ToString\<close> appends the attributes in the order in which the
  \<^verbatim>\<open>range\<close> loop meets the entries of the map; it does not sort the keys. When no
  node of the tree has more than one attribute, the node has exactly one serialization:
  serializing it twice gives byte-identical output.
\<close>

theorem ToString_deterministic_single_attr:
  assumes "at_most_one_attr n"
  shows "\<exists>!s. ToString n indent s"
proof (rule ex_ex1I)
  show "\<exists>s. ToString n indent s"
    using assms by (rule ToString_exists)
next
  fix s1 s2 assume "ToString n indent s1" and "ToString n indent s2"
  then show "s1 = s2" using assms by (rule ToString_unique)
qed

text \<open>
  The theorem at a small document-info tree, whose root carries the single attribute
  \<^verbatim>\<open>xmlns\<close>: it has the rendering shown and therefore no other.
\<close>

theorem ToString_deterministic_single_attr_witness:
  "at_most_one_attr docinfo_node
   \<and> ToString docinfo_node []
     (''<document-info xmlns='' @ [CHR 0x22] @ ''http://www.calligra.org/DTD/document-info''
      @ [CHR 0x22] @ ''>'' @ [CHR 0x0A] @ ''  <about>'' @ [CHR 0x0A] @ ''    <title/></about>''
      @ ''</document-info>'')
   \<and> \<not> ToString docinfo_node [] ''<document-info/>''"
proof -
  have one: "at_most_one_attr docinfo_node"
    by (simp add: docinfo_node_def)
  have "\<not> ToString docinfo_node [] ''<document-info/>''"
  proof
    assume "ToString docinfo_node [] ''<document-info/>''"
    with ToString_deterministic_single_attr [OF one, of "[]"] docinfo_rendering
    have "''<document-info/>'' =
            ''<document-info xmlns='' @ [CHR 0x22] @ ''http://www.calligra.org/DTD/document-info''
            @ [CHR 0x22] @ ''>'' @ [CHR 0x0A] @ ''  <about>'' @ [CHR 0x0A]
            @ ''    <title/></about>'' @ ''</document-info>''"
      by blast
    then show False by simp
  qed
  with one docinfo_rendering show ?thesis by blast
qed

text \<open>
  A node with the two attributes \<^verbatim>\<open>name\<close> and \<^verbatim>\<open>uuid\<close> has two different
  serializations, one for each order in which the map may be enumerated.
\<close>

theorem ToString_attribute_order_counterexample:
  "ToString two_attr_node []
     (''<layer name='' @ [CHR 0x22] @ ''a'' @ [CHR 0x22] @ '' uuid='' @ [CHR 0x22] @ ''b''
      @ [CHR 0x22] @ ''/>'')
   \<and> ToString two_attr_node []
     (''<layer uuid='' @ [CHR 0x22] @ ''b'' @ [CHR 0x22] @ '' name='' @ [CHR 0x22] @ ''a''
      @ [CHR 0x22] @ ''/>'')
   \<and> ''<layer name='' @ [CHR 0x22] @ ''a'' @ [CHR 0x22] @ '' uuid='' @ [CHR 0x22] @ ''b''
      @ [CHR 0x22] @ ''/>''
     \<noteq> ''<layer uuid='' @ [CHR 0x22] @ ''b'' @ [CHR 0x22] @ '' name='' @ [CHR 0x22] @ ''a''
      @ [CHR 0x22] @ ''/>''"
proof -
  have o1: "range_order (Attrs two_attr_node) [(''name'', ''a''), (''uuid'', ''b'')]"
    by (auto simp: range_order_def two_attr_node_def)
  have o2: "range_order (Attrs two_attr_node) [(''uuid'', ''b''), (''name'', ''a'')]"
    by (auto simp: range_order_def two_attr_node_def)
  have c: "Children two_attr_node = []" by (simp add: two_attr_node_def)
  show ?thesis
    using ToString_leaf[OF o1 c, of "[]"] ToString_leaf[OF o2 c, of "[]"]
    by (simp add: element_text_def attr_text_def two_attr_node_def)
qed


section \<open>Claims about the packager\<close>

text \<open>
  Claim C4 (as amended). For a document whose layers are, in this order, one text
  layer, one shape layer and one paint layer, none styled, an archive that \<^verbatim>\<open>Save\<close>
  produces without error contains exactly eleven members, in this order: mimetype,
  documentinfo.xml, maindoc.xml, one content.svg member for each of the two shape-typed
  layers (\<^verbatim>\<open>layers/layer2.shapelayer/content.svg\<close> for the text layer and
  \<^verbatim>\<open>layers/layer3.shapelayer/content.svg\<close> for the shape layer), the three paint-layer
  members \<^verbatim>\<open>layers/layer4\<close>, \<^verbatim>\<open>layers/layer4.defaultpixel\<close> and
  \<^verbatim>\<open>layers/layer4.icc\<close>, the animation metadata \<^verbatim>\<open>index.xml\<close>, the colour profile
  \<^verbatim>\<open>icc\<close>, and preview.png; there is no layerstyles.asl member. (The directory part
  of the names of the animation and profile members is left open.)
\<close>

theorem Save_three_layers_members:
  assumes "Layers doc = [ShapeLayerPtr t, ShapeLayerPtr s, PaintLayerPtr p]"
      and "ContentType t = ''text''" and "ContentType s = ''shape''"
      and "LayerStyle t = None" and "LayerStyle s = None"
      and "Save env doc outputPath w = (Inr (), w')"
  shows "\<exists>animation_member profile_member.
           member_names w' =
             [''mimetype'', ''documentinfo.xml'', ''maindoc.xml'',
              ''layers/layer2.shapelayer/content.svg'', ''layers/layer3.shapelayer/content.svg'',
              ''layers/layer4'', ''layers/layer4.defaultpixel'', ''layers/layer4.icc'',
              animation_member, profile_member, ''preview.png'']
           \<and> filepath_Base animation_member = ''index.xml''
           \<and> filepath_Base profile_member = ''icc''"
proof -
  have a: "filepath_Base (filepath_Join [TempDir doc, ''animation'', ''index.xml'']) = ''index.xml''"
    by (rule filepath_Base_Join_temp) simp_all
  have i: "filepath_Base (filepath_Join [TempDir doc, ''annotations'', ''icc'']) = ''icc''"
    by (rule filepath_Base_Join_temp) simp_all
  from Save_member_names[OF assms(6)] three_layer_infos[OF assms(4,5), of env p] assms(1)
  have "member_names w' =
             [''mimetype'', ''documentinfo.xml'', ''maindoc.xml'',
              ''layers/layer2.shapelayer/content.svg'', ''layers/layer3.shapelayer/content.svg'',
              ''layers/layer4'', ''layers/layer4.defaultpixel'', ''layers/layer4.icc'',
              filepath_Join [TempDir doc, ''animation'', ''index.xml''],
              filepath_Join [TempDir doc, ''annotations'', ''icc''], ''preview.png'']"
    by simp
  with a i show ?thesis by blast
qed

text \<open>
  The theorem at the example document, saved where the colour profile is present.
\<close>

theorem Save_three_layers_members_witness:
  "\<exists>animation_member profile_member.
     member_names (snd (Save example_env example_doc ''output.kra'' world_with_profile)) =
             [''mimetype'', ''documentinfo.xml'', ''maindoc.xml'',
              ''layers/layer2.shapelayer/content.svg'', ''layers/layer3.shapelayer/content.svg'',
              ''layers/layer4'', ''layers/layer4.defaultpixel'', ''layers/layer4.icc'',
              animation_member, profile_member, ''preview.png'']
           \<and> filepath_Base animation_member = ''index.xml''
           \<and> filepath_Base profile_member = ''icc''"
  by (rule Save_three_layers_members [OF example_doc_layers Save_example_result])

text \<open>
  The members of that archive by name: two content.svg members, one of them for the
  text layer, and eleven members in all.
\<close>

theorem Save_three_layers_counterexample:
  "fst (Save example_env example_doc ''output.kra'' world_with_profile) = Inr ()
   \<and> member_names (snd (Save example_env example_doc ''output.kra'' world_with_profile)) =
       [''mimetype'', ''documentinfo.xml'', ''maindoc.xml'',
        ''layers/layer2.shapelayer/content.svg'', ''layers/layer3.shapelayer/content.svg'',
        ''layers/layer4'', ''layers/layer4.defaultpixel'', ''layers/layer4.icc'',
        ''krita_temp/animation/index.xml'', ''krita_temp/annotations/icc'', ''preview.png'']"
proof -
  from Save_member_names[OF Save_example_result]
       three_layer_infos[OF example_doc_layers(4,5), of example_env example_paint]
  have "member_names (snd (Save example_env example_doc ''output.kra'' world_with_profile)) =
       [''mimetype'', ''documentinfo.xml'', ''maindoc.xml'',
        ''layers/layer2.shapelayer/content.svg'', ''layers/layer3.shapelayer/content.svg'',
        ''layers/layer4'', ''layers/layer4.defaultpixel'', ''layers/layer4.icc'',
        ''krita_temp/animation/index.xml'', ''krita_temp/annotations/icc'', ''preview.png'']"
    by (simp add: example_doc_layers(1) filepath_Join_def) (simp add: example_doc_def)
  with Save_example_succeeds show ?thesis by simp
qed


text \<open>
  Claim C8 asks that the preview shows the image of the last paint layer whenever the
  document has a paint layer. The code looks at the last layer only: for a document
  whose layers are a paint layer followed by a shape layer, the image that is scaled is
  the transparent canvas of 64 by 64 pixels, where the specification (and the comment
  "Use the last paint layer if available") names the paint layer's image.
\<close>

theorem preview_ignores_earlier_paint_layer:
  "fst (preview_source paint_first_doc world_with_profile) = Inr (NewRGBA (image_Rect 0 0 64 64))
   \<and> spec_preview_source paint_first_doc = grey_pixel_image
   \<and> NewRGBA (image_Rect 0 0 64 64) \<noteq> grey_pixel_image"
proof -
  have 1: "fst (preview_source paint_first_doc world_with_profile) = Inr (NewRGBA (image_Rect 0 0 64 64))"
    by (simp add: preview_source_def paint_first_doc_def Let_def bindIO_def returnIO_def
          NewRGBA_io_def image_Rect_def Dx_def Dy_def transparent_canvas)
  have 2: "spec_preview_source paint_first_doc = grey_pixel_image"
    by (simp add: spec_preview_source_def last_paint_image_def paint_first_doc_def)
  have 3: "NewRGBA (image_Rect 0 0 64 64) \<noteq> grey_pixel_image"
    by (simp add: NewRGBA_def grey_pixel_image_def image_Rect_def)
  from 1 2 3 show ?thesis by blast
qed


text \<open>
  Claim C9 asks that a failing \<^verbatim>\<open>Save\<close> does not leave the staged content behind.
  The code removes the staging directory on the path without error only: when the
  colour profile \<^verbatim>\<open>layer3.icc\<close> is missing, \<^verbatim>\<open>Save\<close> returns that error, and the
  directory \<^verbatim>\<open>krita_temp/layers\<close> and the file \<^verbatim>\<open>layer4.defaultpixel\<close> staged in
  it are still there; with the profile present, both are gone after \<^verbatim>\<open>Save\<close>.
\<close>

theorem Save_failure_leaves_staging:
  "fst (Save example_env example_doc ''output.kra'' world_without_profile)
     = Inl (ErrNotExist ''layer3.icc'')
   \<and> fs (snd (Save example_env example_doc ''output.kra'' world_without_profile))
        ''krita_temp/layers'' = Some Dir
   \<and> fs (snd (Save example_env example_doc ''output.kra'' world_without_profile))
        ''krita_temp/layers/layer4.defaultpixel'' = Some (File [0, 0, 0, 0])
   \<and> fs (snd (Save example_env example_doc ''output.kra'' world_with_profile))
        ''krita_temp/layers'' = None
   \<and> fs (snd (Save example_env example_doc ''output.kra'' world_with_profile))
        ''krita_temp/layers/layer4.defaultpixel'' = None"
  unfolding Save_def example_infos
  by (simp add: io_defs Let_def example_doc_def world_with_profile_def world_without_profile_def
        addShapeLayerToZip_def addPaintLayerToZip_def example_paint_def createPreview_def
        preview_source_def example_env_def CreateLayerStylesASL_def styled_def example_text_def
        example_shape_def Bounds_blank_image Dx_def Dy_def split: prod.splits)


end
